theory Spec2Isabelle
  imports Main "HOL-Library.Word" "HOL-Library.Sublist"
begin

section \<open>The scheduled S3 backup agent (main.py)\<close>

text \<open>
  The program talks to three things it does not own: the local file system
  (\<open>os.listdir\<close>, \<open>os.path.getsize\<close>, \<open>open\<close>/\<open>read\<close>), the clock
  (\<open>datetime.now\<close>) and the S3 client (\<open>head_object\<close>, \<open>create_multipart_upload\<close>,
  \<open>upload_part\<close>, \<open>complete_multipart_upload\<close>). Each of them is an oracle of the
  environment. An oracle sees the whole history of the run so far, so that its answer may
  depend on everything that happened before (a store that reports an object after its
  upload completed, a network that fails at the third call). Every function of the program
  takes the history and returns it extended by the calls it made.

  A function returns \<open>Inl x\<close> where the source raises \<open>x\<close> and \<open>Inr v\<close> where it
  returns \<open>v\<close>. Standard output is part of the environment too: every \<open>print\<close> of the
  source is a call that may raise (a file name or a message that the stream cannot encode, a
  closed stream), and what it raises goes where the source lets it go. The records of
  \<open>logging.info\<close>, which does not raise, are kept in the history. A response of the S3
  client is the value the source reads from it (\<open>response['UploadId']\<close>,
  \<open>response['ETag']\<close>). Jobs run one after the other: the scheduler and its threads (lines
  107 to 136) are not part of the model.
\<close>

subsection \<open>Data\<close>

type_synonym byte = "8 word"

text \<open>
  The exceptions the program distinguishes: the two classes named in \<open>except\<close> clauses,
  the \<open>KeyError\<close> of a missing configuration key, and every other subclass of
  \<open>Exception\<close> (a botocore \<open>ClientError\<close>, a \<open>PermissionError\<close>, ...), with its name.
\<close>

datatype exn =
    FileNotFoundError
  | NoCredentialsError
  | KeyError string
  | OtherError string

text \<open>
  What the five \<open>print\<close> statements write: line 40 (the part size and the number of the
  next part), line 50, line 55, line 100 (the local path, the bucket and the key) and line
  104.
\<close>

datatype message =
    Msg_progress nat nat
  | Msg_uploaded string string string
  | Msg_no_credentials
  | Msg_uploading string string string
  | Msg_job_error exn

datatype call =
    Listdir string
  | Getsize string
  | Open_rb string
  | Read_file string nat
  | Head_object string string
  | Create_multipart_upload string string
  | Upload_part string string nat string "byte list"
  | Complete_multipart_upload string string string "(nat \<times> string) list"
  | Print message

text \<open>
  \<open>Upload_part Bucket Key PartNumber UploadId Body\<close> and
  \<open>Complete_multipart_upload Bucket Key UploadId Parts\<close> carry the keyword arguments of
  the source in this order. A call either raises, or returns; the \<open>UploadId\<close> of
  \<open>create_multipart_upload\<close> and the \<open>ETag\<close> of \<open>upload_part\<close> are kept.
\<close>

datatype outcome = Raised exn | Returned | Returned_id string

text \<open>The four \<open>logging.info\<close> messages of the two functions modelled here.\<close>

datatype log_record =
    Uploaded string string string
  | File_not_found string
  | No_credentials
  | Job_error exn

datatype event = Call call outcome | Log log_record

type_synonym trace = "event list"

record date =
  year :: nat
  month :: nat
  day :: nat

record env =
  listdir :: "trace \<Rightarrow> string \<Rightarrow> exn + string list"
  getsize :: "trace \<Rightarrow> string \<Rightarrow> exn + nat"
  open_rb :: "trace \<Rightarrow> string \<Rightarrow> exn + byte list"
  read_error :: "trace \<Rightarrow> string \<Rightarrow> exn option"
  now :: "trace \<Rightarrow> date"
  print_error :: "trace \<Rightarrow> message \<Rightarrow> exn option"
  head_object :: "trace \<Rightarrow> string \<Rightarrow> string \<Rightarrow> exn + unit"
  create_multipart_upload :: "trace \<Rightarrow> string \<Rightarrow> string \<Rightarrow> exn + string"
  upload_part :: "trace \<Rightarrow> string \<Rightarrow> string \<Rightarrow> nat \<Rightarrow> string \<Rightarrow> byte list \<Rightarrow> exn + string"
  complete_multipart_upload ::
    "trace \<Rightarrow> string \<Rightarrow> string \<Rightarrow> string \<Rightarrow> (nat \<times> string) list \<Rightarrow> exn + unit"

text \<open>
  \<open>open_rb\<close> gives the bytes that the opened handle will deliver: the file is a regular
  file whose contents stay fixed while it is read. \<open>read_error\<close> says whether the next
  \<open>file.read\<close> raises, \<open>print_error\<close> whether the \<open>print\<close> of a message raises.

  One folder entry of \<open>config.yaml\<close>, a dict: a key that is absent is \<open>None\<close>.
\<close>

record config =
  folder_cfg :: "string option"
  s3_bucket_name_cfg :: "string option"
  include_cfg :: "string list option"
  prefix_cfg :: "string option"

subsection \<open>upload_large_file_to_s3\<close>

definition part_size :: nat where
  "part_size = 5 * 1024 * 1024"

text \<open>
  The \<open>while True\<close> loop of lines 27 to 40. \<open>rest\<close> is what the handle has not delivered
  yet; \<open>file.read(n)\<close> delivers \<open>take n rest\<close>. The loop ends at the first empty read.
  The \<open>print\<close> of line 40 comes after \<open>part_number += 1\<close>.
\<close>

function upload_parts ::
  "env \<Rightarrow> string \<Rightarrow> string \<Rightarrow> string \<Rightarrow> string \<Rightarrow> nat \<Rightarrow> byte list \<Rightarrow> (nat \<times> string) list \<Rightarrow> nat
     \<Rightarrow> trace \<Rightarrow> (exn + (nat \<times> string) list) \<times> trace" where
  "upload_parts e path b k upload_id n rest parts part_number tr =
     (case read_error e tr path of
        Some x \<Rightarrow> (Inl x, tr @ [Call (Read_file path n) (Raised x)])
      | None \<Rightarrow>
          (if take n rest = [] then (Inr parts, tr @ [Call (Read_file path n) Returned])
           else
             (case upload_part e (tr @ [Call (Read_file path n) Returned]) b k part_number
                     upload_id (take n rest) of
                Inl x \<Rightarrow>
                  (Inl x, tr @ [Call (Read_file path n) Returned,
                     Call (Upload_part b k part_number upload_id (take n rest)) (Raised x)])
              | Inr etag \<Rightarrow>
                  (case print_error e
                          (tr @ [Call (Read_file path n) Returned,
                             Call (Upload_part b k part_number upload_id (take n rest))
                               (Returned_id etag)])
                          (Msg_progress n (part_number + 1)) of
                     Some x \<Rightarrow>
                       (Inl x, tr @ [Call (Read_file path n) Returned,
                          Call (Upload_part b k part_number upload_id (take n rest))
                            (Returned_id etag),
                          Call (Print (Msg_progress n (part_number + 1))) (Raised x)])
                   | None \<Rightarrow>
                       upload_parts e path b k upload_id n (drop n rest)
                         (parts @ [(part_number, etag)]) (part_number + 1)
                         (tr @ [Call (Read_file path n) Returned,
                            Call (Upload_part b k part_number upload_id (take n rest))
                              (Returned_id etag),
                            Call (Print (Msg_progress n (part_number + 1))) Returned])))))"
  by pat_completeness auto
termination
  by (relation "measure (\<lambda>(e, path, b, k, upload_id, n, rest, parts, part_number, tr). length rest)")
    auto

declare upload_parts.simps [simp del]

text \<open>The body of the \<open>try\<close> block, lines 16 to 50.\<close>

definition upload_try :: "env \<Rightarrow> string \<Rightarrow> string \<Rightarrow> string \<Rightarrow> trace \<Rightarrow> (exn + unit) \<times> trace" where
  "upload_try e path b k tr =
     (case create_multipart_upload e tr b k of
        Inl x \<Rightarrow> (Inl x, tr @ [Call (Create_multipart_upload b k) (Raised x)])
      | Inr upload_id \<Rightarrow>
          (case open_rb e (tr @ [Call (Create_multipart_upload b k) (Returned_id upload_id)]) path of
             Inl x \<Rightarrow>
               (Inl x, tr @ [Call (Create_multipart_upload b k) (Returned_id upload_id),
                  Call (Open_rb path) (Raised x)])
           | Inr contents \<Rightarrow>
               (case upload_parts e path b k upload_id part_size contents [] 1
                       (tr @ [Call (Create_multipart_upload b k) (Returned_id upload_id),
                          Call (Open_rb path) Returned]) of
                  (Inl x, tr') \<Rightarrow> (Inl x, tr')
                | (Inr parts, tr') \<Rightarrow>
                    (case complete_multipart_upload e tr' b k upload_id parts of
                       Inl x \<Rightarrow>
                         (Inl x, tr' @ [Call (Complete_multipart_upload b k upload_id parts) (Raised x)])
                     | Inr u \<Rightarrow>
                         (case print_error e
                                 (tr' @ [Call (Complete_multipart_upload b k upload_id parts) Returned,
                                    Log (Uploaded path b k)])
                                 (Msg_uploaded path b k) of
                            Some x \<Rightarrow>
                              (Inl x, tr' @ [Call (Complete_multipart_upload b k upload_id parts) Returned,
                                 Log (Uploaded path b k),
                                 Call (Print (Msg_uploaded path b k)) (Raised x)])
                          | None \<Rightarrow>
                              (Inr (), tr' @ [Call (Complete_multipart_upload b k upload_id parts) Returned,
                                 Log (Uploaded path b k),
                                 Call (Print (Msg_uploaded path b k)) Returned]))))))"

text \<open>
  The two \<open>except\<close> clauses, lines 51 to 55: any other exception goes on, and so does
  what the \<open>print\<close> of line 55 raises inside the second handler.
\<close>

fun upload_except :: "env \<Rightarrow> string \<Rightarrow> (exn + unit) \<times> trace \<Rightarrow> (exn + unit) \<times> trace" where
  "upload_except e path (Inl FileNotFoundError, tr) = (Inr (), tr @ [Log (File_not_found path)])"
| "upload_except e path (Inl NoCredentialsError, tr) =
     (case print_error e (tr @ [Log No_credentials]) Msg_no_credentials of
        Some x \<Rightarrow> (Inl x, tr @ [Log No_credentials, Call (Print Msg_no_credentials) (Raised x)])
      | None \<Rightarrow> (Inr (), tr @ [Log No_credentials, Call (Print Msg_no_credentials) Returned]))"
| "upload_except e path (r, tr) = (r, tr)"

text \<open>\<open>os.path.getsize\<close> of line 12 stands before the \<open>try\<close>.\<close>

definition upload_large_file_to_s3 ::
  "env \<Rightarrow> string \<Rightarrow> string \<Rightarrow> string \<Rightarrow> trace \<Rightarrow> (exn + unit) \<times> trace" where
  "upload_large_file_to_s3 e local_file_path s3_bucket_name s3_object_key tr =
     (case getsize e tr local_file_path of
        Inl x \<Rightarrow> (Inl x, tr @ [Call (Getsize local_file_path) (Raised x)])
      | Inr file_size \<Rightarrow>
          upload_except e local_file_path
            (upload_try e local_file_path s3_bucket_name s3_object_key
               (tr @ [Call (Getsize local_file_path) Returned])))"

subsection \<open>get_current_date, is_included, check_file_existence\<close>

definition digit :: "nat \<Rightarrow> char" where
  "digit d = ''0123456789'' ! (d mod 10)"

text \<open>A number in decimal, and in decimal on at least \<open>w\<close> digits (C's \<open>%0wd\<close>).\<close>

fun digits :: "nat \<Rightarrow> string" where
  "digits n = (if n < 10 then [digit n] else digits (n div 10) @ [digit n])"

declare digits.simps [simp del]

definition zero_padded :: "nat \<Rightarrow> nat \<Rightarrow> string" where
  "zero_padded w n = replicate (w - length (digits n)) (CHR ''0'') @ digits n"

text \<open>
  \<open>strftime('%Y-%m-%d')\<close>: the year on four digits, month and day on two, zero padded.
  A \<open>datetime\<close> has a year from 1 to 9999, a month from 1 to 12 and a day from 1 to 31. (For
  a year below 1000 the C library of some platforms writes \<open>%Y\<close> without the padding;
  the theorems that read a date back take a year from 1000 on, where all agree.)
\<close>

definition strftime_Ymd :: "date \<Rightarrow> string" where
  "strftime_Ymd d =
     zero_padded 4 (year d) @ ''-'' @ zero_padded 2 (month d) @ ''-'' @ zero_padded 2 (day d)"

definition get_current_date :: "env \<Rightarrow> trace \<Rightarrow> string" where
  "get_current_date e tr = strftime_Ymd (now e tr)"

definition endswith :: "string \<Rightarrow> string \<Rightarrow> bool" where
  "endswith s suf = (length suf \<le> length s \<and> drop (length s - length suf) s = suf)"

fun is_included :: "string \<Rightarrow> string list \<Rightarrow> bool" where
  "is_included filename [] = False"
| "is_included filename (pattern # include_patterns) =
     (if endswith filename pattern then True else is_included filename include_patterns)"

definition check_file_existence :: "env \<Rightarrow> string \<Rightarrow> string \<Rightarrow> trace \<Rightarrow> (exn + bool) \<times> trace" where
  "check_file_existence e s3_bucket_name s3_object_key tr =
     (case head_object e tr s3_bucket_name s3_object_key of
        Inr response \<Rightarrow> (Inr True, tr @ [Call (Head_object s3_bucket_name s3_object_key) Returned])
      | Inl x \<Rightarrow> (Inr False, tr @ [Call (Head_object s3_bucket_name s3_object_key) (Raised x)]))"

subsection \<open>backup_job\<close>

text \<open>\<open>os.path.join\<close> of two components (posixpath).\<close>

definition os_path_join :: "string \<Rightarrow> string \<Rightarrow> string" where
  "os_path_join a b =
     (if b \<noteq> [] \<and> hd b = CHR ''/'' then b
      else if a = [] \<or> last a = CHR ''/'' then a @ b
      else a @ ''/'' @ b)"

text \<open>
  The \<open>for\<close> loop of lines 95 to 101. The \<open>print\<close> of line 100 stands between the
  existence check and the upload.
\<close>

fun backup_files ::
  "env \<Rightarrow> config \<Rightarrow> string \<Rightarrow> string \<Rightarrow> string list \<Rightarrow> trace \<Rightarrow> (exn + unit) \<times> trace" where
  "backup_files e cfg backup_folder bucket [] tr = (Inr (), tr)"
| "backup_files e cfg backup_folder bucket (filename # files) tr =
     (case prefix_cfg cfg of
        None \<Rightarrow> (Inl (KeyError ''prefix''), tr)
      | Some p \<Rightarrow>
          (case check_file_existence e bucket (p @ ''/'' @ get_current_date e tr @ ''/'' @ filename) tr of
             (Inl x, tr1) \<Rightarrow> (Inl x, tr1)
           | (Inr True, tr1) \<Rightarrow> backup_files e cfg backup_folder bucket files tr1
           | (Inr False, tr1) \<Rightarrow>
               (case print_error e tr1
                       (Msg_uploading (os_path_join backup_folder filename) bucket
                          (p @ ''/'' @ get_current_date e tr @ ''/'' @ filename)) of
                  Some x \<Rightarrow>
                    (Inl x, tr1 @ [Call (Print (Msg_uploading (os_path_join backup_folder filename) bucket
                       (p @ ''/'' @ get_current_date e tr @ ''/'' @ filename))) (Raised x)])
                | None \<Rightarrow>
                    (case upload_large_file_to_s3 e (os_path_join backup_folder filename) bucket
                            (p @ ''/'' @ get_current_date e tr @ ''/'' @ filename)
                            (tr1 @ [Call (Print (Msg_uploading (os_path_join backup_folder filename) bucket
                               (p @ ''/'' @ get_current_date e tr @ ''/'' @ filename))) Returned]) of
                       (Inl x, tr2) \<Rightarrow> (Inl x, tr2)
                     | (Inr u, tr2) \<Rightarrow> backup_files e cfg backup_folder bucket files tr2))))"

text \<open>The body of the \<open>try\<close> block of \<open>backup_job\<close>, lines 89 to 101.\<close>

definition backup_try :: "env \<Rightarrow> config \<Rightarrow> trace \<Rightarrow> (exn + unit) \<times> trace" where
  "backup_try e cfg tr =
     (case folder_cfg cfg of
        None \<Rightarrow> (Inl (KeyError ''folder''), tr)
      | Some backup_folder \<Rightarrow>
          (case s3_bucket_name_cfg cfg of
             None \<Rightarrow> (Inl (KeyError ''s3_bucket_name''), tr)
           | Some bucket \<Rightarrow>
               (case listdir e tr backup_folder of
                  Inl x \<Rightarrow> (Inl x, tr @ [Call (Listdir backup_folder) (Raised x)])
                | Inr names \<Rightarrow>
                    backup_files e cfg backup_folder bucket
                      (filter (\<lambda>file. is_included file (case include_cfg cfg of None \<Rightarrow> [] | Some ps \<Rightarrow> ps))
                         names)
                      (tr @ [Call (Listdir backup_folder) Returned]))))"

text \<open>
  \<open>except Exception\<close> of lines 103 to 105: the handler prints, then logs. What its own
  \<open>print\<close> raises leaves \<open>backup_job\<close>, and the log record is not written.
\<close>

definition backup_job :: "env \<Rightarrow> config \<Rightarrow> trace \<Rightarrow> (exn + unit) \<times> trace" where
  "backup_job e cfg tr =
     (case backup_try e cfg tr of
        (Inl x, tr') \<Rightarrow>
          (case print_error e tr' (Msg_job_error x) of
             Some y \<Rightarrow> (Inl y, tr' @ [Call (Print (Msg_job_error x)) (Raised y)])
           | None \<Rightarrow> (Inr (), tr' @ [Call (Print (Msg_job_error x)) Returned, Log (Job_error x)]))
      | (Inr u, tr') \<Rightarrow> (Inr (), tr'))"

text \<open>What the handler of lines 103 to 105 adds to the history, given the outcome of the
  \<open>try\<close> block.\<close>

definition handler_events :: "env \<Rightarrow> (exn + unit) \<times> trace \<Rightarrow> trace" where
  "handler_events e r =
     (case fst r of
        Inr u \<Rightarrow> []
      | Inl x \<Rightarrow>
          (case print_error e (snd r) (Msg_job_error x) of
             Some y \<Rightarrow> [Call (Print (Msg_job_error x)) (Raised y)]
           | None \<Rightarrow> [Call (Print (Msg_job_error x)) Returned, Log (Job_error x)]))"

subsection \<open>Reading a history\<close>

text \<open>What a function added to the history it was given.\<close>

definition events_since :: "trace \<Rightarrow> trace \<Rightarrow> trace" where
  "events_since tr tr' = drop (length tr) tr'"

text \<open>\<open>PartNumber\<close> and \<open>Body\<close> of every \<open>upload_part\<close> call, in the order of the calls.\<close>

fun part_calls :: "trace \<Rightarrow> (nat \<times> byte list) list" where
  "part_calls [] = []"
| "part_calls (Call (Upload_part b k n u body) oc # evs) = (n, body) # part_calls evs"
| "part_calls (ev # evs) = part_calls evs"

text \<open>\<open>PartNumber\<close> and \<open>ETag\<close> of every \<open>upload_part\<close> call that returned.\<close>

fun part_tags :: "trace \<Rightarrow> (nat \<times> string) list" where
  "part_tags [] = []"
| "part_tags (Call (Upload_part b k n u body) (Returned_id etag) # evs) = (n, etag) # part_tags evs"
| "part_tags (ev # evs) = part_tags evs"

definition part_numbers :: "trace \<Rightarrow> nat list" where
  "part_numbers evs = map fst (part_calls evs)"

definition part_bodies :: "trace \<Rightarrow> byte list list" where
  "part_bodies evs = map snd (part_calls evs)"

text \<open>\<open>UploadId\<close> and \<open>Parts\<close> of every \<open>complete_multipart_upload\<close> call.\<close>

fun complete_calls :: "trace \<Rightarrow> (string \<times> (nat \<times> string) list) list" where
  "complete_calls [] = []"
| "complete_calls (Call (Complete_multipart_upload b k u ps) oc # evs) = (u, ps) # complete_calls evs"
| "complete_calls (ev # evs) = complete_calls evs"

text \<open>Bucket and key of every completion that returned: an object now stands there.\<close>

fun completed :: "trace \<Rightarrow> (string \<times> string) list" where
  "completed [] = []"
| "completed (Call (Complete_multipart_upload b k u ps) Returned # evs) = (b, k) # completed evs"
| "completed (ev # evs) = completed evs"

text \<open>Bucket and key of every call of the multipart protocol (create, part, complete).\<close>

fun written :: "trace \<Rightarrow> (string \<times> string) list" where
  "written [] = []"
| "written (Call (Create_multipart_upload b k) oc # evs) = (b, k) # written evs"
| "written (Call (Upload_part b k n u body) oc # evs) = (b, k) # written evs"
| "written (Call (Complete_multipart_upload b k u ps) oc # evs) = (b, k) # written evs"
| "written (ev # evs) = written evs"

text \<open>The keys of the existence checks, in the order of the checks.\<close>

fun checked :: "trace \<Rightarrow> string list" where
  "checked [] = []"
| "checked (Call (Head_object b k) oc # evs) = k # checked evs"
| "checked (ev # evs) = checked evs"

text \<open>The calls made to the S3 client, without those to the file system.\<close>

fun s3_calls :: "trace \<Rightarrow> trace" where
  "s3_calls [] = []"
| "s3_calls (Call (Head_object b k) oc # evs) = Call (Head_object b k) oc # s3_calls evs"
| "s3_calls (Call (Create_multipart_upload b k) oc # evs) =
     Call (Create_multipart_upload b k) oc # s3_calls evs"
| "s3_calls (Call (Upload_part b k n u body) oc # evs) =
     Call (Upload_part b k n u body) oc # s3_calls evs"
| "s3_calls (Call (Complete_multipart_upload b k u ps) oc # evs) =
     Call (Complete_multipart_upload b k u ps) oc # s3_calls evs"
| "s3_calls (ev # evs) = s3_calls evs"

text \<open>The calls that raised, with what they raised.\<close>

fun raised :: "trace \<Rightarrow> (call \<times> exn) list" where
  "raised [] = []"
| "raised (Call c (Raised x) # evs) = (c, x) # raised evs"
| "raised (ev # evs) = raised evs"

text \<open>The log records that report an error (all but line 49's).\<close>

fun error_logs :: "trace \<Rightarrow> log_record list" where
  "error_logs [] = []"
| "error_logs (Log (Uploaded path b k) # evs) = error_logs evs"
| "error_logs (Log r # evs) = r # error_logs evs"
| "error_logs (ev # evs) = error_logs evs"

subsection \<open>Chunks of a file, as the specification describes them\<close>

text \<open>
  The specification splits a file into fixed-size chunks, the last one holding the
  remainder. This is that list, written without reference to the upload loop.
\<close>

function chunks :: "nat \<Rightarrow> 'a list \<Rightarrow> 'a list list" where
  "chunks n xs = (if n = 0 \<or> xs = [] then [] else take n xs # chunks n (drop n xs))"
  by pat_completeness auto
termination
  by (relation "measure (\<lambda>(n, xs). length xs)") auto

declare chunks.simps [simp del]

text \<open>
  The existence check, and the calls made inside the \<open>try\<close> block of the upload (the
  \<open>print\<close> statements of lines 40 and 50 among them).
\<close>

fun is_check :: "call \<Rightarrow> bool" where
  "is_check (Head_object b k) = True"
| "is_check c = False"

fun in_try :: "call \<Rightarrow> bool" where
  "in_try (Create_multipart_upload b k) = True"
| "in_try (Open_rb path) = True"
| "in_try (Read_file path n) = True"
| "in_try (Upload_part b k n u body) = True"
| "in_try (Complete_multipart_upload b k u ps) = True"
| "in_try (Print (Msg_progress n i)) = True"
| "in_try (Print (Msg_uploaded path b k)) = True"
| "in_try c = False"

text \<open>A log record reports an exception: lines 52, 54 and 105.\<close>

fun reports :: "log_record \<Rightarrow> exn \<Rightarrow> bool" where
  "reports (File_not_found path) x = (x = FileNotFoundError)"
| "reports No_credentials x = (x = NoCredentialsError)"
| "reports (Job_error y) x = (y = x)"
| "reports (Uploaded path b k) x = False"

text \<open>
  Reading a history for unreported errors, one event at a time. The state is \<open>None\<close> once
  an error went unreported, \<open>Some None\<close> while nothing waits for its record, and
  \<open>Some (Some x)\<close> while \<open>x\<close>, just raised, waits for it: the next event must then be the
  log record that reports \<open>x\<close>, with at most messages printed in between. What the
  existence check raises waits for nothing.
\<close>

fun log_step :: "exn option option \<Rightarrow> event \<Rightarrow> exn option option" where
  "log_step None ev = None"
| "log_step (Some None) (Call c (Raised x)) = (if is_check c then Some None else Some (Some x))"
| "log_step (Some None) ev = Some None"
| "log_step (Some (Some x)) (Call (Print m) Returned) = Some (Some x)"
| "log_step (Some (Some x)) (Log r) = (if reports r x then Some None else None)"
| "log_step (Some (Some x)) ev = None"

definition errors_logged :: "trace \<Rightarrow> bool" where
  "errors_logged evs = (foldl log_step (Some None) evs = Some None)"

text \<open>
  The errors that the upload of one file keeps to itself: whatever the existence check
  raises, and a \<open>FileNotFoundError\<close> or \<open>NoCredentialsError\<close> raised inside the \<open>try\<close>
  block of the upload.
\<close>

definition contained :: "call \<Rightarrow> exn \<Rightarrow> bool" where
  "contained c x =
     (is_check c \<or> (in_try c \<and> (x = FileNotFoundError \<or> x = NoCredentialsError)))"

text \<open>
  The existence checks of a history, each with the history before it, its bucket and key,
  its outcome and the events after it.
\<close>

type_synonym check = "trace \<times> string \<times> string \<times> outcome \<times> trace"

fun checks :: "trace \<Rightarrow> trace \<Rightarrow> check list" where
  "checks tr [] = []"
| "checks tr (Call (Head_object b k) oc # evs) =
     (tr, b, k, oc, evs) # checks (tr @ [Call (Head_object b k) oc]) evs"
| "checks tr (ev # evs) = checks (tr @ [ev]) evs"

text \<open>
  A check is the check of candidate \<open>f\<close>: it is made in the bucket of the job, on the key
  built from the prefix, the date that the clock shows at the check, and \<open>f\<close>.
\<close>

definition key_is :: "env \<Rightarrow> string \<Rightarrow> string \<Rightarrow> check \<Rightarrow> string \<Rightarrow> bool" where
  "key_is e p bucket c f =
     (case c of (t, b, k, oc, rest) \<Rightarrow>
        b = bucket \<and> k = p @ ''/'' @ strftime_Ymd (now e t) @ ''/'' @ f)"


subsection \<open>Dates written as YYYY-MM-DD, as the specification describes them\<close>

text \<open>
  Reading back a date: ten characters, four digits, a hyphen, two digits, a hyphen, two
  digits. This is written without reference to \<open>strftime_Ymd\<close>.
\<close>

definition digit_value :: "char \<Rightarrow> nat option" where
  "digit_value c = map_of (zip ''0123456789'' [0..<10]) c"



subsection \<open>Example environments\<close>

text \<open>
  A folder with the given listing, every file of which holds the given bytes, on the first
  of March 2024. The existence check, the opening of an upload session, the upload of a
  part (by part number) and the printing of a message are left open.
\<close>

definition example_env ::
  "string list \<Rightarrow> byte list \<Rightarrow> (trace \<Rightarrow> string \<Rightarrow> string \<Rightarrow> exn + unit) \<Rightarrow> (string \<Rightarrow> exn + string)
     \<Rightarrow> (nat \<Rightarrow> exn + string) \<Rightarrow> (message \<Rightarrow> exn option) \<Rightarrow> env" where
  "example_env names contents head create part prints =
     \<lparr> listdir = (\<lambda>tr path. Inr names),
       getsize = (\<lambda>tr path. Inr (length contents)),
       open_rb = (\<lambda>tr path. Inr contents),
       read_error = (\<lambda>tr path. None),
       now = (\<lambda>tr. \<lparr> year = 2024, month = 3, day = 1 \<rparr>),
       print_error = (\<lambda>tr m. prints m),
       head_object = head,
       create_multipart_upload = (\<lambda>tr b k. create k),
       upload_part = (\<lambda>tr b k n u body. part n),
       complete_multipart_upload = (\<lambda>tr b k u ps. Inr ()) \<rparr>"

text \<open>A store that reports exactly the objects whose upload completed.\<close>

definition store_head :: "trace \<Rightarrow> string \<Rightarrow> string \<Rightarrow> exn + unit" where
  "store_head tr b k =
     (if (b, k) \<in> set (completed tr) then Inr () else Inl (OtherError ''ClientError''))"

text \<open>A store that cannot be reached.\<close>

definition no_head :: "trace \<Rightarrow> string \<Rightarrow> string \<Rightarrow> exn + unit" where
  "no_head tr b k = Inl (OtherError ''EndpointConnectionError'')"

text \<open>A standard output that takes every message.\<close>

definition all_printed :: "message \<Rightarrow> exn option" where
  "all_printed m = None"

text \<open>
  A standard output whose encoding has no Hangul (ASCII, Latin-1, a Windows code page): of
  the five messages it takes only the one of line 40, the only one written in ASCII.
\<close>

definition ascii_stdout :: "message \<Rightarrow> exn option" where
  "ascii_stdout m =
     (case m of Msg_progress n i \<Rightarrow> None | _ \<Rightarrow> Some (OtherError ''UnicodeEncodeError''))"

definition example_cfg :: "string list \<Rightarrow> config" where
  "example_cfg pats =
     \<lparr> folder_cfg = Some ''/data'', s3_bucket_name_cfg = Some ''bucket'',
       include_cfg = Some pats, prefix_cfg = Some ''db'' \<rparr>"

section \<open>Properties\<close>

subsection \<open>Histories\<close>

lemma part_calls_append [simp]: "part_calls (xs @ ys) = part_calls xs @ part_calls ys"
  by (induction xs rule: part_calls.induct) simp_all

lemma part_tags_append [simp]: "part_tags (xs @ ys) = part_tags xs @ part_tags ys"
  by (induction xs rule: part_tags.induct) simp_all

lemma complete_calls_append [simp]: "complete_calls (xs @ ys) = complete_calls xs @ complete_calls ys"
  by (induction xs rule: complete_calls.induct) simp_all

lemma completed_append [simp]: "completed (xs @ ys) = completed xs @ completed ys"
  by (induction xs rule: completed.induct) simp_all

lemma written_append [simp]: "written (xs @ ys) = written xs @ written ys"
  by (induction xs rule: written.induct) simp_all

lemma checked_append [simp]: "checked (xs @ ys) = checked xs @ checked ys"
  by (induction xs rule: checked.induct) simp_all

lemma s3_calls_append [simp]: "s3_calls (xs @ ys) = s3_calls xs @ s3_calls ys"
  by (induction xs rule: s3_calls.induct) simp_all

lemma raised_append [simp]: "raised (xs @ ys) = raised xs @ raised ys"
  by (induction xs rule: raised.induct) simp_all

lemma error_logs_append [simp]: "error_logs (xs @ ys) = error_logs xs @ error_logs ys"
  by (induction xs rule: error_logs.induct) simp_all

lemma part_calls_skip_Log [simp]: "part_calls (ev # Log r # evs) = part_calls (ev # evs)"
  using part_calls_append[of "[ev]" "Log r # evs"] part_calls_append[of "[ev]" evs] by simp

lemma part_calls_skip_Print [simp]: "part_calls (ev # Call (Print m) oc # evs) = part_calls (ev # evs)"
  using part_calls_append[of "[ev]" "Call (Print m) oc # evs"] part_calls_append[of "[ev]" evs] by simp

lemma part_tags_skip_Log [simp]: "part_tags (ev # Log r # evs) = part_tags (ev # evs)"
  using part_tags_append[of "[ev]" "Log r # evs"] part_tags_append[of "[ev]" evs] by simp

lemma part_tags_skip_Print [simp]: "part_tags (ev # Call (Print m) oc # evs) = part_tags (ev # evs)"
  using part_tags_append[of "[ev]" "Call (Print m) oc # evs"] part_tags_append[of "[ev]" evs] by simp

lemma complete_calls_skip_Log [simp]: "complete_calls (ev # Log r # evs) = complete_calls (ev # evs)"
  using complete_calls_append[of "[ev]" "Log r # evs"] complete_calls_append[of "[ev]" evs] by simp

lemma complete_calls_skip_Print [simp]: "complete_calls (ev # Call (Print m) oc # evs) = complete_calls (ev # evs)"
  using complete_calls_append[of "[ev]" "Call (Print m) oc # evs"] complete_calls_append[of "[ev]" evs] by simp

lemma completed_skip_Log [simp]: "completed (ev # Log r # evs) = completed (ev # evs)"
  using completed_append[of "[ev]" "Log r # evs"] completed_append[of "[ev]" evs] by simp

lemma completed_skip_Print [simp]: "completed (ev # Call (Print m) oc # evs) = completed (ev # evs)"
  using completed_append[of "[ev]" "Call (Print m) oc # evs"] completed_append[of "[ev]" evs] by simp

lemma written_skip_Log [simp]: "written (ev # Log r # evs) = written (ev # evs)"
  using written_append[of "[ev]" "Log r # evs"] written_append[of "[ev]" evs] by simp

lemma written_skip_Print [simp]: "written (ev # Call (Print m) oc # evs) = written (ev # evs)"
  using written_append[of "[ev]" "Call (Print m) oc # evs"] written_append[of "[ev]" evs] by simp

lemma checked_skip_Log [simp]: "checked (ev # Log r # evs) = checked (ev # evs)"
  using checked_append[of "[ev]" "Log r # evs"] checked_append[of "[ev]" evs] by simp

lemma checked_skip_Print [simp]: "checked (ev # Call (Print m) oc # evs) = checked (ev # evs)"
  using checked_append[of "[ev]" "Call (Print m) oc # evs"] checked_append[of "[ev]" evs] by simp

lemma raised_skip_Log [simp]: "raised (ev # Log r # evs) = raised (ev # evs)"
  using raised_append[of "[ev]" "Log r # evs"] raised_append[of "[ev]" evs] by simp

lemma raised_skip_Print [simp]: "raised (ev # Call (Print m) Returned # evs) = raised (ev # evs)"
  using raised_append[of "[ev]" "Call (Print m) Returned # evs"] raised_append[of "[ev]" evs] by simp

lemma error_logs_skip_Print [simp]: "error_logs (ev # Call (Print m) oc # evs) = error_logs (ev # evs)"
  using error_logs_append[of "[ev]" "Call (Print m) oc # evs"] error_logs_append[of "[ev]" evs] by simp

lemma completed_raised [simp]: "completed [Call c (Raised x)] = []"
  by (cases c) simp_all

lemma part_tags_raised [simp]: "part_tags [Call c (Raised x)] = []"
  by (cases c) simp_all

lemma error_logs_Call [simp]: "error_logs (Call c oc # evs) = error_logs evs"
  by (cases c) simp_all

lemma raised_mem: "Call c (Raised x) \<in> set evs \<Longrightarrow> (c, x) \<in> set (raised evs)"
  by (induction evs rule: raised.induct) auto

lemma events_since_append [simp]: "events_since tr (tr @ evs) = evs"
  by (simp add: events_since_def)

lemma events_since_same [simp]: "events_since tr tr = []"
  by (simp add: events_since_def)

lemma in_try_not_check: "in_try c \<Longrightarrow> \<not> is_check c"
  by (cases c) simp_all

lemma chunks_Nil [simp]: "chunks n [] = []"
  by (simp add: chunks.simps)

lemma chunks_step: "take n xs \<noteq> [] \<Longrightarrow> chunks n xs = take n xs # chunks n (drop n xs)"
  by (subst chunks.simps) auto

lemma chunks_done: "take n xs = [] \<Longrightarrow> chunks n xs = []"
  by (subst chunks.simps) auto

subsection \<open>What the read loop adds to the history\<close>

lemma upload_parts_spec:
  "\<exists>evs. snd (upload_parts e path b k u n rest parts pn tr) = tr @ evs
     \<and> set (written evs) \<subseteq> {(b, k)} \<and> complete_calls evs = [] \<and> completed evs = []
     \<and> checked evs = [] \<and> error_logs evs = []
     \<and> prefix (part_calls evs) (enumerate pn (chunks n rest))
     \<and> (case fst (upload_parts e path b k u n rest parts pn tr) of
          Inr ps \<Rightarrow> ps = parts @ part_tags evs
            \<and> part_calls evs = enumerate pn (chunks n rest)
            \<and> map fst (part_tags evs) = map fst (part_calls evs)
            \<and> raised evs = []
        | Inl x \<Rightarrow> \<exists>c evs'. evs = evs' @ [Call c (Raised x)] \<and> raised evs' = [] \<and> in_try c)"
proof (induction e path b k u n rest parts pn tr rule: upload_parts.induct)
  case (1 e path b k u n rest parts pn tr)
  show ?case
  proof (cases "read_error e tr path")
    case (Some x)
    then show ?thesis
      by (simp add: upload_parts.simps[of e path b k u n rest parts pn tr])
  next
    case None
    show ?thesis
    proof (cases "take n rest = []")
      case True
      with None show ?thesis
        by (simp add: upload_parts.simps[of e path b k u n rest parts pn tr] chunks_done)
    next
      case False
      note ch = chunks_step[OF False]
      show ?thesis
      proof (cases "upload_part e (tr @ [Call (Read_file path n) Returned]) b k pn u (take n rest)")
        case (Inl x)
        have "\<exists>c evs'. [Call (Read_file path n) Returned,
             Call (Upload_part b k pn u (take n rest)) (Raised x)] = evs' @ [Call c (Raised x)]
             \<and> raised evs' = [] \<and> in_try c"
          by (rule exI[of _ "Upload_part b k pn u (take n rest)"],
              rule exI[of _ "[Call (Read_file path n) Returned]"]) simp
        with None False Inl show ?thesis
          by (simp add: upload_parts.simps[of e path b k u n rest parts pn tr] ch)
      next
        case (Inr etag)
        let ?two = "[Call (Read_file path n) Returned,
                Call (Upload_part b k pn u (take n rest)) (Returned_id etag)]"
        show ?thesis
        proof (cases "print_error e (tr @ ?two) (Msg_progress n (pn + 1))")
          case (Some x)
          have "\<exists>c evs'. ?two @ [Call (Print (Msg_progress n (pn + 1))) (Raised x)] =
               evs' @ [Call c (Raised x)] \<and> raised evs' = [] \<and> in_try c"
            by (rule exI[of _ "Print (Msg_progress n (pn + 1))"], rule exI[of _ ?two]) simp
          with None False Inr Some show ?thesis
            by (simp add: upload_parts.simps[of e path b k u n rest parts pn tr] ch)
        next
          case pr: None
          let ?three = "?two @ [Call (Print (Msg_progress n (pn + 1))) Returned]"
          let ?tr1 = "tr @ ?three"
          let ?R = "upload_parts e path b k u n (drop n rest) (parts @ [(pn, etag)]) (pn + 1) ?tr1"
          have eq: "upload_parts e path b k u n rest parts pn tr = ?R"
            using None False Inr pr by (simp add: upload_parts.simps[of e path b k u n rest parts pn tr])
          from "1.IH"[OF None False Inr pr] obtain evs where
            a: "snd ?R = ?tr1 @ evs" and
            b: "set (written evs) \<subseteq> {(b, k)}" "complete_calls evs = []" "completed evs = []"
               "checked evs = []" "error_logs evs = []" and
            c: "prefix (part_calls evs) (enumerate (pn + 1) (chunks n (drop n rest)))" and
            d: "(case fst ?R of
            Inr ps \<Rightarrow> ps = (parts @ [(pn, etag)]) @ part_tags evs
              \<and> part_calls evs = enumerate (pn + 1) (chunks n (drop n rest))
              \<and> map fst (part_tags evs) = map fst (part_calls evs)
              \<and> raised evs = []
          | Inl x \<Rightarrow> \<exists>c evs'. evs = evs' @ [Call c (Raised x)] \<and> raised evs' = [] \<and> in_try c)"
            by auto
          let ?evs = "?three @ evs"
          have 1: "snd (upload_parts e path b k u n rest parts pn tr) = tr @ ?evs"
            using a eq by simp
          have 2: "set (written ?evs) \<subseteq> {(b, k)}" "complete_calls ?evs = []" "completed ?evs = []"
               "checked ?evs = []" "error_logs ?evs = []" using b by simp_all
          have 3: "prefix (part_calls ?evs) (enumerate pn (chunks n rest))"
            using c unfolding ch by simp
          have 4: "(case fst (upload_parts e path b k u n rest parts pn tr) of
            Inr ps \<Rightarrow> ps = parts @ part_tags ?evs
              \<and> part_calls ?evs = enumerate pn (chunks n rest)
              \<and> map fst (part_tags ?evs) = map fst (part_calls ?evs)
              \<and> raised ?evs = []
          | Inl x \<Rightarrow> \<exists>c evs'. ?evs = evs' @ [Call c (Raised x)] \<and> raised evs' = [] \<and> in_try c)"
          proof (cases "fst ?R")
            case (Inl x)
            with d obtain c evs' where "evs = evs' @ [Call c (Raised x)]" "raised evs' = []" "in_try c"
              by auto
            then have "?evs = (?three @ evs') @ [Call c (Raised x)]
                \<and> raised (?three @ evs') = [] \<and> in_try c" by simp
            then have "\<exists>c evs'. ?evs = evs' @ [Call c (Raised x)] \<and> raised evs' = [] \<and> in_try c"
              by blast
            with Inl show ?thesis unfolding eq by simp
          next
            case (Inr ps)
            with d show ?thesis unfolding eq ch by simp
          qed
          from 1 2 3 4 show ?thesis by blast
        qed
      qed
    qed
  qed
qed

subsection \<open>What the try block of the upload adds to the history\<close>

lemma upload_try_cases [case_names create_fails open_fails part_fails complete_fails print_fails completes]:
  obtains
    x where
      "upload_try e path b k tr =
         (Inl x, tr @ [Call (Create_multipart_upload b k) (Raised x)])"
  | u x where
      "upload_try e path b k tr =
         (Inl x, tr @ [Call (Create_multipart_upload b k) (Returned_id u), Call (Open_rb path) (Raised x)])"
  | u contents evs c x where
      "open_rb e (tr @ [Call (Create_multipart_upload b k) (Returned_id u)]) path = Inr contents"
      "upload_try e path b k tr =
         (Inl x, tr @ [Call (Create_multipart_upload b k) (Returned_id u), Call (Open_rb path) Returned]
           @ evs @ [Call c (Raised x)])"
      "raised evs = []" "in_try c"
      "set (written (evs @ [Call c (Raised x)])) \<subseteq> {(b, k)}"
      "complete_calls (evs @ [Call c (Raised x)]) = []"
      "completed (evs @ [Call c (Raised x)]) = []"
      "checked (evs @ [Call c (Raised x)]) = []"
      "error_logs (evs @ [Call c (Raised x)]) = []"
      "prefix (part_calls (evs @ [Call c (Raised x)])) (enumerate 1 (chunks part_size contents))"
  | u contents evs x where
      "open_rb e (tr @ [Call (Create_multipart_upload b k) (Returned_id u)]) path = Inr contents"
      "upload_try e path b k tr =
         (Inl x, tr @ [Call (Create_multipart_upload b k) (Returned_id u), Call (Open_rb path) Returned]
           @ evs @ [Call (Complete_multipart_upload b k u (part_tags evs)) (Raised x)])"
      "raised evs = []"
      "set (written evs) \<subseteq> {(b, k)}" "complete_calls evs = []" "completed evs = []"
      "checked evs = []" "error_logs evs = []"
      "part_calls evs = enumerate 1 (chunks part_size contents)"
      "map fst (part_tags evs) = map fst (part_calls evs)"
  | u contents evs x where
      "open_rb e (tr @ [Call (Create_multipart_upload b k) (Returned_id u)]) path = Inr contents"
      "upload_try e path b k tr =
         (Inl x, tr @ [Call (Create_multipart_upload b k) (Returned_id u), Call (Open_rb path) Returned]
           @ evs @ [Call (Complete_multipart_upload b k u (part_tags evs)) Returned,
              Log (Uploaded path b k), Call (Print (Msg_uploaded path b k)) (Raised x)])"
      "raised evs = []"
      "set (written evs) \<subseteq> {(b, k)}" "complete_calls evs = []" "completed evs = []"
      "checked evs = []" "error_logs evs = []"
      "part_calls evs = enumerate 1 (chunks part_size contents)"
      "map fst (part_tags evs) = map fst (part_calls evs)"
  | u contents evs where
      "open_rb e (tr @ [Call (Create_multipart_upload b k) (Returned_id u)]) path = Inr contents"
      "upload_try e path b k tr =
         (Inr (), tr @ [Call (Create_multipart_upload b k) (Returned_id u), Call (Open_rb path) Returned]
           @ evs @ [Call (Complete_multipart_upload b k u (part_tags evs)) Returned,
              Log (Uploaded path b k), Call (Print (Msg_uploaded path b k)) Returned])"
      "raised evs = []"
      "set (written evs) \<subseteq> {(b, k)}" "complete_calls evs = []" "completed evs = []"
      "checked evs = []" "error_logs evs = []"
      "part_calls evs = enumerate 1 (chunks part_size contents)"
      "map fst (part_tags evs) = map fst (part_calls evs)"
proof (cases "create_multipart_upload e tr b k")
  case (Inl x)
  then show ?thesis using that(1) by (simp add: upload_try_def)
next
  case cr: (Inr u)
  let ?tr1 = "tr @ [Call (Create_multipart_upload b k) (Returned_id u)]"
  show ?thesis
  proof (cases "open_rb e ?tr1 path")
    case (Inl x)
    then show ?thesis using that(2) cr by (simp add: upload_try_def)
  next
    case op: (Inr contents)
    let ?tr2 = "?tr1 @ [Call (Open_rb path) Returned]"
    let ?R = "upload_parts e path b k u part_size contents [] 1 ?tr2"
    from upload_parts_spec[of e path b k u part_size contents "[]" 1 ?tr2]
    obtain evs where
      a: "snd ?R = ?tr2 @ evs" and
      w: "set (written evs) \<subseteq> {(b, k)}" "complete_calls evs = []" "completed evs = []"
         "checked evs = []" "error_logs evs = []" and
      p: "prefix (part_calls evs) (enumerate 1 (chunks part_size contents))" and
      d: "(case fst ?R of
            Inr ps \<Rightarrow> ps = [] @ part_tags evs
              \<and> part_calls evs = enumerate 1 (chunks part_size contents)
              \<and> map fst (part_tags evs) = map fst (part_calls evs)
              \<and> raised evs = []
          | Inl x \<Rightarrow> \<exists>c evs'. evs = evs' @ [Call c (Raised x)] \<and> raised evs' = [] \<and> in_try c)"
      by blast
    show ?thesis
    proof (cases "fst ?R")
      case (Inl x)
      with d obtain c evs' where c: "evs = evs' @ [Call c (Raised x)]" "raised evs' = []" "in_try c"
        by auto
      have R: "?R = (Inl x, ?tr2 @ evs' @ [Call c (Raised x)])"
        using Inl a c(1) by (simp add: prod_eq_iff)
      have "upload_try e path b k tr =
         (Inl x, tr @ [Call (Create_multipart_upload b k) (Returned_id u), Call (Open_rb path) Returned]
         @ evs' @ [Call c (Raised x)])"
        using cr op R by (simp add: upload_try_def)
      then show ?thesis using that(3) op c w p by simp
    next
      case (Inr ps)
      with d have ps: "ps = part_tags evs" and
        q: "part_calls evs = enumerate 1 (chunks part_size contents)"
           "map fst (part_tags evs) = map fst (part_calls evs)" "raised evs = []" by auto
      have R: "?R = (Inr (part_tags evs), ?tr2 @ evs)"
        using Inr a ps by (simp add: prod_eq_iff)
      show ?thesis
      proof (cases "complete_multipart_upload e (?tr2 @ evs) b k u (part_tags evs)")
        case (Inl x)
        have "upload_try e path b k tr =
          (Inl x, tr @ [Call (Create_multipart_upload b k) (Returned_id u), Call (Open_rb path) Returned]
           @ evs @ [Call (Complete_multipart_upload b k u (part_tags evs)) (Raised x)])"
          using cr op R Inl by (simp add: upload_try_def)
        then show ?thesis using that(4) op w q by simp
      next
        case co: (Inr v)
        let ?tr3 = "?tr2 @ evs @ [Call (Complete_multipart_upload b k u (part_tags evs)) Returned,
              Log (Uploaded path b k)]"
        show ?thesis
        proof (cases "print_error e ?tr3 (Msg_uploaded path b k)")
          case (Some x)
          have "upload_try e path b k tr =
            (Inl x, tr @ [Call (Create_multipart_upload b k) (Returned_id u), Call (Open_rb path) Returned]
             @ evs @ [Call (Complete_multipart_upload b k u (part_tags evs)) Returned,
                Log (Uploaded path b k), Call (Print (Msg_uploaded path b k)) (Raised x)])"
            using cr op R co Some by (simp add: upload_try_def)
          then show ?thesis using that(5) op w q by simp
        next
          case None
          have "upload_try e path b k tr =
            (Inr (), tr @ [Call (Create_multipart_upload b k) (Returned_id u), Call (Open_rb path) Returned]
             @ evs @ [Call (Complete_multipart_upload b k u (part_tags evs)) Returned,
                Log (Uploaded path b k), Call (Print (Msg_uploaded path b k)) Returned])"
            using cr op R co None by (simp add: upload_try_def)
          then show ?thesis using that(6) op w q by simp
        qed
      qed
    qed
  qed
qed

lemma try_extends:
  "snd (upload_try e path b k tr) = tr @ events_since tr (snd (upload_try e path b k tr))"
  by (cases rule: upload_try_cases[of e path b k tr]) auto

lemma try_written:
  "set (written (events_since tr (snd (upload_try e path b k tr)))) \<subseteq> {(b, k)}"
  by (cases rule: upload_try_cases[of e path b k tr]) auto


lemma try_completed:
  "set (completed (events_since tr (snd (upload_try e path b k tr)))) \<subseteq> {(b, k)}
   \<and> length (completed (events_since tr (snd (upload_try e path b k tr)))) \<le> 1"
  by (cases rule: upload_try_cases[of e path b k tr]) auto

lemma try_error_logs:
  "error_logs (events_since tr (snd (upload_try e path b k tr))) = []"
  by (cases rule: upload_try_cases[of e path b k tr]) auto

lemma try_returns:
  "fst (upload_try e path b k tr) = Inr v \<Longrightarrow>
     raised (events_since tr (snd (upload_try e path b k tr))) = []"
  by (cases rule: upload_try_cases[of e path b k tr]) auto

lemma try_raises:
  assumes "fst (upload_try e path b k tr) = Inl x"
  shows "\<exists>c A. events_since tr (snd (upload_try e path b k tr)) = A @ [Call c (Raised x)]
           \<and> raised A = [] \<and> in_try c"
proof (cases rule: upload_try_cases[of e path b k tr])
  case (create_fails y)
  with assms have "events_since tr (snd (upload_try e path b k tr)) =
      [] @ [Call (Create_multipart_upload b k) (Raised x)]" by simp
  moreover have "raised [] = []" "in_try (Create_multipart_upload b k)" by simp_all
  ultimately show ?thesis by blast
next
  case (open_fails u y)
  with assms have "events_since tr (snd (upload_try e path b k tr)) =
      [Call (Create_multipart_upload b k) (Returned_id u)] @ [Call (Open_rb path) (Raised x)]" by simp
  moreover have "raised [Call (Create_multipart_upload b k) (Returned_id u)] = []" "in_try (Open_rb path)"
    by simp_all
  ultimately show ?thesis by blast
next
  case (part_fails u contents evs c y)
  with assms have "events_since tr (snd (upload_try e path b k tr)) =
      ([Call (Create_multipart_upload b k) (Returned_id u), Call (Open_rb path) Returned] @ evs)
        @ [Call c (Raised x)]" by simp
  moreover have "raised ([Call (Create_multipart_upload b k) (Returned_id u), Call (Open_rb path) Returned]
      @ evs) = []" using part_fails by simp
  ultimately show ?thesis using part_fails(4) by blast
next
  case (complete_fails u contents evs y)
  with assms have "events_since tr (snd (upload_try e path b k tr)) =
      ([Call (Create_multipart_upload b k) (Returned_id u), Call (Open_rb path) Returned] @ evs)
        @ [Call (Complete_multipart_upload b k u (part_tags evs)) (Raised x)]" by simp
  moreover have "raised ([Call (Create_multipart_upload b k) (Returned_id u), Call (Open_rb path) Returned]
      @ evs) = []" "in_try (Complete_multipart_upload b k u (part_tags evs))"
    using complete_fails by simp_all
  ultimately show ?thesis by blast
next
  case (print_fails u contents evs y)
  with assms have "events_since tr (snd (upload_try e path b k tr)) =
      ([Call (Create_multipart_upload b k) (Returned_id u), Call (Open_rb path) Returned] @ evs
        @ [Call (Complete_multipart_upload b k u (part_tags evs)) Returned, Log (Uploaded path b k)])
        @ [Call (Print (Msg_uploaded path b k)) (Raised x)]" by simp
  moreover have "raised ([Call (Create_multipart_upload b k) (Returned_id u), Call (Open_rb path) Returned]
      @ evs @ [Call (Complete_multipart_upload b k u (part_tags evs)) Returned, Log (Uploaded path b k)]) = []"
    "in_try (Print (Msg_uploaded path b k))"
    using print_fails by simp_all
  ultimately show ?thesis by blast
next
  case (completes u contents evs)
  with assms show ?thesis by simp
qed

lemma try_part_calls:
  assumes "\<forall>t. open_rb e t path = Inr contents"
  shows "prefix (part_calls (events_since tr (snd (upload_try e path b k tr))))
           (enumerate 1 (chunks part_size contents))"
  using assms by (cases rule: upload_try_cases[of e path b k tr]) auto

lemma try_part_calls_ex:
  "\<exists>cs. prefix (part_calls (events_since tr (snd (upload_try e path b k tr)))) (enumerate 1 cs)"
  by (cases rule: upload_try_cases[of e path b k tr]) auto

lemma try_complete_calls:
  assumes "\<forall>t. open_rb e t path = Inr contents"
  shows "complete_calls (events_since tr (snd (upload_try e path b k tr))) = []
     \<or> (\<exists>u. complete_calls (events_since tr (snd (upload_try e path b k tr))) =
            [(u, part_tags (events_since tr (snd (upload_try e path b k tr))))]
          \<and> part_calls (events_since tr (snd (upload_try e path b k tr))) =
              enumerate 1 (chunks part_size contents)
          \<and> map fst (part_tags (events_since tr (snd (upload_try e path b k tr)))) =
              map fst (part_calls (events_since tr (snd (upload_try e path b k tr)))))"
  using assms by (cases rule: upload_try_cases[of e path b k tr]) auto

subsection \<open>What one upload adds to the history\<close>

lemma upload_except_Inl:
  "upload_except e path (Inl x, t) =
     (if x = FileNotFoundError then (Inr (), t @ [Log (File_not_found path)])
      else if x = NoCredentialsError then
        (case print_error e (t @ [Log No_credentials]) Msg_no_credentials of
           Some y \<Rightarrow> (Inl y, t @ [Log No_credentials, Call (Print Msg_no_credentials) (Raised y)])
         | None \<Rightarrow> (Inr (), t @ [Log No_credentials, Call (Print Msg_no_credentials) Returned]))
      else (Inl x, t))"
  by (cases x) simp_all

lemma upload_except_Inr: "upload_except e path (Inr u, t) = (Inr u, t)"
  by simp

lemma upload_cases [case_names getsize_fails returned not_found no_credentials unprinted other]:
  obtains
    x where "getsize e tr path = Inl x"
      "upload_large_file_to_s3 e path b k tr = (Inl x, tr @ [Call (Getsize path) (Raised x)])"
  | "fst (upload_try e path b k (tr @ [Call (Getsize path) Returned])) = Inr ()"
      "fst (upload_large_file_to_s3 e path b k tr) = Inr ()"
      "events_since tr (snd (upload_large_file_to_s3 e path b k tr)) =
         Call (Getsize path) Returned
         # events_since (tr @ [Call (Getsize path) Returned])
             (snd (upload_try e path b k (tr @ [Call (Getsize path) Returned])))"
  | c A where
      "events_since (tr @ [Call (Getsize path) Returned])
         (snd (upload_try e path b k (tr @ [Call (Getsize path) Returned]))) =
         A @ [Call c (Raised FileNotFoundError)]"
      "raised A = []" "in_try c"
      "fst (upload_large_file_to_s3 e path b k tr) = Inr ()"
      "events_since tr (snd (upload_large_file_to_s3 e path b k tr)) =
         Call (Getsize path) Returned # A @ [Call c (Raised FileNotFoundError),
           Log (File_not_found path)]"
  | c A where
      "events_since (tr @ [Call (Getsize path) Returned])
         (snd (upload_try e path b k (tr @ [Call (Getsize path) Returned]))) =
         A @ [Call c (Raised NoCredentialsError)]"
      "raised A = []" "in_try c"
      "fst (upload_large_file_to_s3 e path b k tr) = Inr ()"
      "events_since tr (snd (upload_large_file_to_s3 e path b k tr)) =
         Call (Getsize path) Returned # A @ [Call c (Raised NoCredentialsError),
           Log No_credentials, Call (Print Msg_no_credentials) Returned]"
  | c A y where
      "events_since (tr @ [Call (Getsize path) Returned])
         (snd (upload_try e path b k (tr @ [Call (Getsize path) Returned]))) =
         A @ [Call c (Raised NoCredentialsError)]"
      "raised A = []" "in_try c"
      "fst (upload_large_file_to_s3 e path b k tr) = Inl y"
      "events_since tr (snd (upload_large_file_to_s3 e path b k tr)) =
         Call (Getsize path) Returned # A @ [Call c (Raised NoCredentialsError),
           Log No_credentials, Call (Print Msg_no_credentials) (Raised y)]"
  | c A x where
      "events_since (tr @ [Call (Getsize path) Returned])
         (snd (upload_try e path b k (tr @ [Call (Getsize path) Returned]))) =
         A @ [Call c (Raised x)]"
      "raised A = []" "in_try c" "x \<noteq> FileNotFoundError" "x \<noteq> NoCredentialsError"
      "fst (upload_large_file_to_s3 e path b k tr) = Inl x"
      "events_since tr (snd (upload_large_file_to_s3 e path b k tr)) =
         Call (Getsize path) Returned # A @ [Call c (Raised x)]"
proof (cases "getsize e tr path")
  case (Inl x)
  then have "upload_large_file_to_s3 e path b k tr = (Inl x, tr @ [Call (Getsize path) (Raised x)])"
    by (simp add: upload_large_file_to_s3_def)
  with Inl show ?thesis using that(1) by blast
next
  case gs: (Inr file_size)
  let ?tr0 = "tr @ [Call (Getsize path) Returned]"
  let ?T = "upload_try e path b k ?tr0"
  let ?E = "events_since ?tr0 (snd ?T)"
  have U: "upload_large_file_to_s3 e path b k tr = upload_except e path ?T"
    using gs by (simp add: upload_large_file_to_s3_def)
  have T: "?T = (fst ?T, ?tr0 @ ?E)"
    using try_extends[of e path b k ?tr0] by (simp add: prod_eq_iff)
  show ?thesis
  proof (cases "fst ?T")
    case (Inr v)
    have "upload_large_file_to_s3 e path b k tr = (Inr (), tr @ Call (Getsize path) Returned # ?E)"
      unfolding U by (subst T) (simp add: Inr)
    then have "fst (upload_large_file_to_s3 e path b k tr) = Inr ()"
      "events_since tr (snd (upload_large_file_to_s3 e path b k tr)) = Call (Getsize path) Returned # ?E"
      by simp_all
    then show ?thesis using that(2) Inr by simp
  next
    case (Inl x)
    from try_raises[OF Inl] obtain c A where
      A: "?E = A @ [Call c (Raised x)]" "raised A = []" "in_try c" by blast
    have Ux: "upload_large_file_to_s3 e path b k tr =
        upload_except e path (Inl x, tr @ Call (Getsize path) Returned # A @ [Call c (Raised x)])"
      unfolding U by (subst T) (simp add: Inl A(1))
    show ?thesis
    proof (cases "x = FileNotFoundError")
      case True
      have "upload_large_file_to_s3 e path b k tr =
          (Inr (), tr @ Call (Getsize path) Returned # A @ [Call c (Raised FileNotFoundError),
             Log (File_not_found path)])"
        unfolding Ux using True by (simp add: upload_except_Inl)
      then have "fst (upload_large_file_to_s3 e path b k tr) = Inr ()"
        "events_since tr (snd (upload_large_file_to_s3 e path b k tr)) =
           Call (Getsize path) Returned # A @ [Call c (Raised FileNotFoundError),
             Log (File_not_found path)]"
        by simp_all
      then show ?thesis using that(3) A True by simp
    next
      case nf: False
      show ?thesis
      proof (cases "x = NoCredentialsError")
        case True
        let ?t = "(tr @ Call (Getsize path) Returned # A @ [Call c (Raised x)]) @ [Log No_credentials]"
        show ?thesis
        proof (cases "print_error e ?t Msg_no_credentials")
          case None
          have "upload_large_file_to_s3 e path b k tr =
              (Inr (), tr @ Call (Getsize path) Returned # A @ [Call c (Raised NoCredentialsError),
                 Log No_credentials, Call (Print Msg_no_credentials) Returned])"
            unfolding Ux using True None by (simp add: upload_except_Inl)
          then have "fst (upload_large_file_to_s3 e path b k tr) = Inr ()"
            "events_since tr (snd (upload_large_file_to_s3 e path b k tr)) =
               Call (Getsize path) Returned # A @ [Call c (Raised NoCredentialsError),
                 Log No_credentials, Call (Print Msg_no_credentials) Returned]"
            by simp_all
          then show ?thesis using that(4) A True by simp
        next
          case (Some y)
          have "upload_large_file_to_s3 e path b k tr =
              (Inl y, tr @ Call (Getsize path) Returned # A @ [Call c (Raised NoCredentialsError),
                 Log No_credentials, Call (Print Msg_no_credentials) (Raised y)])"
            unfolding Ux using True Some by (simp add: upload_except_Inl)
          then have "fst (upload_large_file_to_s3 e path b k tr) = Inl y"
            "events_since tr (snd (upload_large_file_to_s3 e path b k tr)) =
               Call (Getsize path) Returned # A @ [Call c (Raised NoCredentialsError),
                 Log No_credentials, Call (Print Msg_no_credentials) (Raised y)]"
            by simp_all
          then show ?thesis using that(5) A True by simp
        qed
      next
        case False
        have "upload_large_file_to_s3 e path b k tr =
            (Inl x, tr @ Call (Getsize path) Returned # A @ [Call c (Raised x)])"
          unfolding Ux using nf False by (simp add: upload_except_Inl)
        then have "fst (upload_large_file_to_s3 e path b k tr) = Inl x"
          "events_since tr (snd (upload_large_file_to_s3 e path b k tr)) =
             Call (Getsize path) Returned # A @ [Call c (Raised x)]"
          by simp_all
        then show ?thesis using that(6) A nf False by simp
      qed
    qed
  qed
qed

lemma log_step_quiet: "raised evs = [] \<Longrightarrow> foldl log_step (Some None) evs = Some None"
  by (induction evs rule: raised.induct) simp_all

lemma errors_logged_quiet: "raised evs = [] \<Longrightarrow> errors_logged (evs @ ys) = errors_logged ys"
  by (simp add: errors_logged_def log_step_quiet)

lemma errors_logged_quiet_Nil: "raised evs = [] \<Longrightarrow> errors_logged evs"
  using errors_logged_quiet[of evs "[]"] by (simp add: errors_logged_def)

lemma errors_logged_append: "errors_logged xs \<Longrightarrow> errors_logged (xs @ ys) = errors_logged ys"
  by (simp add: errors_logged_def)

lemma errors_logged_Nil [simp]: "errors_logged []"
  by (simp add: errors_logged_def)

lemma errors_logged_Returned [simp]:
  "errors_logged (Call c Returned # evs) = errors_logged evs"
  "errors_logged (Call c (Returned_id i) # evs) = errors_logged evs"
  "errors_logged (Log r # evs) = errors_logged evs"
  by (simp_all add: errors_logged_def)

lemma errors_logged_check [simp]:
  "errors_logged (Call (Head_object b k) oc # evs) = errors_logged evs"
  by (cases oc) (simp_all add: errors_logged_def)

lemma errors_logged_reported:
  "\<not> is_check c \<Longrightarrow> reports r x \<Longrightarrow> errors_logged (Call c (Raised x) # Log r # evs) = errors_logged evs"
  by (simp add: errors_logged_def)

lemma errors_logged_printed_reported:
  "\<not> is_check c \<Longrightarrow> reports r x \<Longrightarrow>
     errors_logged (Call c (Raised x) # Call (Print m) Returned # Log r # evs) = errors_logged evs"
  by (simp add: errors_logged_def)

lemma upload_extends:
  "snd (upload_large_file_to_s3 e path b k tr) =
     tr @ events_since tr (snd (upload_large_file_to_s3 e path b k tr))"
proof (cases "getsize e tr path")
  case (Inl x)
  then show ?thesis by (simp add: upload_large_file_to_s3_def)
next
  case (Inr s)
  let ?tr0 = "tr @ [Call (Getsize path) Returned]"
  obtain r E where T: "upload_try e path b k ?tr0 = (r, ?tr0 @ E)"
    using try_extends[of e path b k ?tr0] by (metis prod.collapse)
  have "\<exists>evs. snd (upload_except e path (r, ?tr0 @ E)) = tr @ evs"
    by (cases r) (auto simp: upload_except_Inl split: option.splits)
  then show ?thesis using Inr T by (auto simp: upload_large_file_to_s3_def)
qed

lemma upload_written:
  "set (written (events_since tr (snd (upload_large_file_to_s3 e path b k tr)))) \<subseteq> {(b, k)}"
  using try_written[of "tr @ [Call (Getsize path) Returned]" e path b k]
  by (cases rule: upload_cases[of e tr path b k]) auto


lemma upload_completed:
  "set (completed (events_since tr (snd (upload_large_file_to_s3 e path b k tr)))) \<subseteq> {(b, k)}
   \<and> length (completed (events_since tr (snd (upload_large_file_to_s3 e path b k tr)))) \<le> 1"
  using try_completed[of "tr @ [Call (Getsize path) Returned]" e path b k]
  by (cases rule: upload_cases[of e tr path b k]) auto


lemma upload_returns:
  assumes "fst (upload_large_file_to_s3 e path b k tr) = Inr v"
  shows "errors_logged (events_since tr (snd (upload_large_file_to_s3 e path b k tr)))
     \<and> (\<forall>(c, x)\<in>set (raised (events_since tr (snd (upload_large_file_to_s3 e path b k tr)))).
           contained c x)"
proof (cases rule: upload_cases[of e tr path b k])
  case (getsize_fails x)
  with assms show ?thesis by simp
next
  case returned
  from try_returns[OF returned(1)] show ?thesis
    unfolding returned(3) by (simp add: errors_logged_quiet_Nil)
next
  case (not_found c A)
  then show ?thesis
    by (simp add: errors_logged_quiet errors_logged_reported in_try_not_check contained_def)
next
  case (no_credentials c A)
  then show ?thesis
    by (simp add: errors_logged_quiet errors_logged_reported in_try_not_check contained_def)
next
  case (unprinted c A y)
  with assms show ?thesis by simp
next
  case (other c A x)
  with assms show ?thesis by simp
qed

lemma upload_raises:
  assumes "fst (upload_large_file_to_s3 e path b k tr) = Inl x"
  shows "\<exists>c evs'. events_since tr (snd (upload_large_file_to_s3 e path b k tr)) = evs' @ [Call c (Raised x)]
           \<and> errors_logged evs' \<and> \<not> is_check c \<and> \<not> contained c x
           \<and> (\<forall>(c', x')\<in>set (raised evs'). contained c' x')"
proof (cases rule: upload_cases[of e tr path b k])
  case (getsize_fails y)
  with assms have "events_since tr (snd (upload_large_file_to_s3 e path b k tr)) =
      [] @ [Call (Getsize path) (Raised x)]" by simp
  moreover have "errors_logged []" "\<not> is_check (Getsize path)" "\<not> contained (Getsize path) x"
    "\<forall>(c', x')\<in>set (raised []). contained c' x'"
    by (simp_all add: contained_def)
  ultimately show ?thesis by blast
next
  case returned
  with assms show ?thesis by simp
next
  case (not_found c A)
  with assms show ?thesis by simp
next
  case (no_credentials c A)
  with assms show ?thesis by simp
next
  case (unprinted c A y)
  let ?evs = "Call (Getsize path) Returned # A @ [Call c (Raised NoCredentialsError), Log No_credentials]"
  from unprinted assms have "events_since tr (snd (upload_large_file_to_s3 e path b k tr)) =
      ?evs @ [Call (Print Msg_no_credentials) (Raised x)]" by simp
  moreover have "errors_logged ?evs"
    using unprinted(2,3)
    by (simp add: errors_logged_quiet errors_logged_reported in_try_not_check)
  moreover have "\<forall>(c', x')\<in>set (raised ?evs). contained c' x'"
    using unprinted(2,3) by (simp add: contained_def)
  moreover have "\<not> is_check (Print Msg_no_credentials)" "\<not> contained (Print Msg_no_credentials) x"
    by (simp_all add: contained_def)
  ultimately show ?thesis by blast
next
  case (other c A y)
  let ?evs = "Call (Getsize path) Returned # A"
  from other assms have "events_since tr (snd (upload_large_file_to_s3 e path b k tr)) =
      ?evs @ [Call c (Raised x)]" "x \<noteq> FileNotFoundError" "x \<noteq> NoCredentialsError" by simp_all
  moreover have "errors_logged ?evs" "\<forall>(c', x')\<in>set (raised ?evs). contained c' x'"
    using other(2) by (simp_all add: errors_logged_quiet_Nil)
  moreover have "\<not> is_check c" using other(3) by (rule in_try_not_check)
  ultimately show ?thesis by (auto simp: contained_def)
qed

lemma upload_part_calls_eq:
  "part_calls (events_since tr (snd (upload_large_file_to_s3 e path b k tr))) =
     (case getsize e tr path of Inl x \<Rightarrow> []
      | Inr s \<Rightarrow> part_calls (events_since (tr @ [Call (Getsize path) Returned])
           (snd (upload_try e path b k (tr @ [Call (Getsize path) Returned])))))"
  "part_tags (events_since tr (snd (upload_large_file_to_s3 e path b k tr))) =
     (case getsize e tr path of Inl x \<Rightarrow> []
      | Inr s \<Rightarrow> part_tags (events_since (tr @ [Call (Getsize path) Returned])
           (snd (upload_try e path b k (tr @ [Call (Getsize path) Returned])))))"
  "complete_calls (events_since tr (snd (upload_large_file_to_s3 e path b k tr))) =
     (case getsize e tr path of Inl x \<Rightarrow> []
      | Inr s \<Rightarrow> complete_calls (events_since (tr @ [Call (Getsize path) Returned])
           (snd (upload_try e path b k (tr @ [Call (Getsize path) Returned])))))"
proof -
  let ?tr0 = "tr @ [Call (Getsize path) Returned]"
  let ?E = "events_since ?tr0 (snd (upload_try e path b k ?tr0))"
  let ?U = "events_since tr (snd (upload_large_file_to_s3 e path b k tr))"
  have "\<exists>tail. (case getsize e tr path of Inl x \<Rightarrow> ?U = [Call (Getsize path) (Raised x)]
      | Inr s \<Rightarrow> ?U = Call (Getsize path) Returned # ?E @ tail
          \<and> part_calls tail = [] \<and> part_tags tail = [] \<and> complete_calls tail = [])"
  proof (cases "getsize e tr path")
    case (Inl x)
    then show ?thesis by (simp add: upload_large_file_to_s3_def)
  next
    case (Inr s)
    obtain r where T: "upload_try e path b k ?tr0 = (r, ?tr0 @ ?E)"
      using try_extends[of e path b k ?tr0] by (metis prod.collapse)
    have "\<exists>tail. snd (upload_except e path (r, ?tr0 @ ?E)) = (?tr0 @ ?E) @ tail
        \<and> part_calls tail = [] \<and> part_tags tail = [] \<and> complete_calls tail = []"
      by (cases r) (auto simp: upload_except_Inl split: option.splits)
    then obtain tail where "snd (upload_except e path (r, ?tr0 @ ?E)) = tr @ Call (Getsize path) Returned # ?E @ tail"
      "part_calls tail = []" "part_tags tail = []" "complete_calls tail = []" by auto
    moreover have "upload_large_file_to_s3 e path b k tr = upload_except e path (r, ?tr0 @ ?E)"
      using Inr T by (simp add: upload_large_file_to_s3_def)
    ultimately have "?U = Call (Getsize path) Returned # ?E @ tail
          \<and> part_calls tail = [] \<and> part_tags tail = [] \<and> complete_calls tail = []"
      by (metis events_since_append)
    then show ?thesis using Inr by auto
  qed
  then obtain tail where t: "(case getsize e tr path of Inl x \<Rightarrow> ?U = [Call (Getsize path) (Raised x)]
      | Inr s \<Rightarrow> ?U = Call (Getsize path) Returned # ?E @ tail
          \<and> part_calls tail = [] \<and> part_tags tail = [] \<and> complete_calls tail = [])" by blast
  show "part_calls ?U = (case getsize e tr path of Inl x \<Rightarrow> [] | Inr s \<Rightarrow> part_calls ?E)"
    using t by (cases "getsize e tr path") auto
  show "part_tags ?U = (case getsize e tr path of Inl x \<Rightarrow> [] | Inr s \<Rightarrow> part_tags ?E)"
    using t by (cases "getsize e tr path") auto
  show "complete_calls ?U = (case getsize e tr path of Inl x \<Rightarrow> [] | Inr s \<Rightarrow> complete_calls ?E)"
    using t by (cases "getsize e tr path") auto
qed

subsection \<open>Chunks\<close>

lemma chunks_Cons: "0 < n \<Longrightarrow> xs \<noteq> [] \<Longrightarrow> chunks n xs = take n xs # chunks n (drop n xs)"
  by (subst chunks.simps) simp

lemma chunks_zero [simp]: "chunks 0 xs = []"
  by (subst chunks.simps) simp

lemma chunks_eq_Nil: "0 < n \<Longrightarrow> chunks n xs = [] \<longleftrightarrow> xs = []"
  by (subst chunks.simps) simp

lemma concat_chunks: "0 < n \<Longrightarrow> concat (chunks n xs) = xs"
proof (induction n xs rule: chunks.induct)
  case (1 n xs)
  show ?case
  proof (cases "xs = []")
    case True
    then show ?thesis by simp
  next
    case False
    with 1 show ?thesis by (simp add: chunks_Cons)
  qed
qed

lemma sum_length_chunks: "0 < n \<Longrightarrow> sum_list (map length (chunks n xs)) = length xs"
  using concat_chunks[of n xs] length_concat[of "chunks n xs"] by simp

lemma butlast_chunks_full: "0 < n \<Longrightarrow> c \<in> set (butlast (chunks n xs)) \<Longrightarrow> length c = n"
proof (induction n xs arbitrary: c rule: chunks.induct)
  case (1 n xs)
  show ?case
  proof (cases "xs = []")
    case True
    with 1 show ?thesis by simp
  next
    case False
    note ch = chunks_Cons[OF "1.prems"(1) False]
    show ?thesis
    proof (cases "drop n xs = []")
      case True
      with "1.prems" show ?thesis unfolding ch by simp
    next
      case d: False
      then have "chunks n (drop n xs) \<noteq> []" using "1.prems"(1) by (simp add: chunks_eq_Nil)
      with "1.prems"(2) have "c = take n xs \<or> c \<in> set (butlast (chunks n (drop n xs)))"
        unfolding ch by simp
      then show ?thesis
      proof
        assume "c = take n xs"
        with d show ?thesis by simp
      next
        assume "c \<in> set (butlast (chunks n (drop n xs)))"
        with "1.IH" "1.prems"(1) False show ?thesis by simp
      qed
    qed
  qed
qed

lemma last_chunk_length:
  "0 < n \<Longrightarrow> xs \<noteq> [] \<Longrightarrow>
     length (last (chunks n xs)) = (if length xs mod n = 0 then n else length xs mod n)"
proof (induction n xs rule: chunks.induct)
  case (1 n xs)
  note ch = chunks_Cons[OF "1.prems"]
  show ?case
  proof (cases "drop n xs = []")
    case True
    then have le: "length xs \<le> n" by simp
    have "length (last (chunks n xs)) = length xs" unfolding ch using True le by simp
    moreover have "0 < length xs" using "1.prems" by simp
    ultimately show ?thesis using le by (cases "length xs = n") auto
  next
    case False
    then have gt: "n < length xs" by simp
    have ne: "chunks n (drop n xs) \<noteq> []" using False "1.prems"(1) by (simp add: chunks_eq_Nil)
    have "length (last (chunks n xs)) = length (last (chunks n (drop n xs)))"
      unfolding ch using ne by simp
    also have "\<dots> = (if length (drop n xs) mod n = 0 then n else length (drop n xs) mod n)"
      using "1.IH" "1.prems" False by simp
    also have "length (drop n xs) mod n = length xs mod n"
      using gt by (simp add: le_mod_geq)
    finally show ?thesis .
  qed
qed

subsection \<open>The parts of one upload\<close>

lemma prefix_upt: "prefix ys [n..<m] \<Longrightarrow> ys = [n..<n + length ys]"
proof -
  assume p: "prefix ys [n..<m]"
  then obtain zs where zs: "[n..<m] = ys @ zs" by (auto simp: prefix_def)
  then have "length ys + length zs = m - n" by (metis length_append length_upt)
  then have le: "ys \<noteq> [] \<Longrightarrow> n + length ys \<le> m" by (cases ys) auto
  have t: "ys = take (length ys) [n..<m]" using zs by simp
  show ?thesis
  proof (cases "ys = []")
    case True
    then show ?thesis by simp
  next
    case False
    from take_upt[OF le[OF False]] t show ?thesis by simp
  qed
qed

lemma prefix_enumerate:
  assumes "prefix xs (enumerate n cs)"
  shows "map fst xs = [n..<n + length xs]" and "prefix (map snd xs) cs"
proof -
  have "prefix (map fst xs) (map fst (enumerate n cs))" using assms by (rule map_mono_prefix)
  then have "prefix (map fst xs) [n..<n + length cs]" by simp
  from prefix_upt[OF this] show "map fst xs = [n..<n + length xs]" by simp
  have "prefix (map snd xs) (map snd (enumerate n cs))" using assms by (rule map_mono_prefix)
  then show "prefix (map snd xs) cs" by simp
qed

lemma upload_part_calls:
  assumes "\<forall>t. open_rb e t path = Inr contents"
  shows "prefix (part_calls (events_since tr (snd (upload_large_file_to_s3 e path b k tr))))
           (enumerate 1 (chunks part_size contents))"
  using try_part_calls[OF assms, of "tr @ [Call (Getsize path) Returned]" b k]
  by (cases "getsize e tr path") (simp_all add: upload_part_calls_eq)

lemma upload_part_numbers:
  "part_numbers (events_since tr (snd (upload_large_file_to_s3 e path b k tr))) =
     [1..<Suc (length (part_numbers (events_since tr (snd (upload_large_file_to_s3 e path b k tr)))))]"
proof -
  have "\<exists>cs. prefix (part_calls (events_since tr (snd (upload_large_file_to_s3 e path b k tr))))
           (enumerate 1 cs)"
    using try_part_calls_ex[of "tr @ [Call (Getsize path) Returned]" e path b k]
    by (cases "getsize e tr path") (simp_all add: upload_part_calls_eq)
  then obtain cs where "prefix (part_calls (events_since tr (snd (upload_large_file_to_s3 e path b k tr))))
           (enumerate 1 cs)" by blast
  from prefix_enumerate(1)[OF this] show ?thesis by (simp add: part_numbers_def del: upt_Suc)
qed

lemma upload_complete_calls:
  assumes "\<forall>t. open_rb e t path = Inr contents"
  shows "complete_calls (events_since tr (snd (upload_large_file_to_s3 e path b k tr))) = []
     \<or> (\<exists>u. complete_calls (events_since tr (snd (upload_large_file_to_s3 e path b k tr))) =
            [(u, part_tags (events_since tr (snd (upload_large_file_to_s3 e path b k tr))))]
          \<and> part_calls (events_since tr (snd (upload_large_file_to_s3 e path b k tr))) =
              enumerate 1 (chunks part_size contents)
          \<and> map fst (part_tags (events_since tr (snd (upload_large_file_to_s3 e path b k tr)))) =
              part_numbers (events_since tr (snd (upload_large_file_to_s3 e path b k tr))))"
  using try_complete_calls[OF assms, of "tr @ [Call (Getsize path) Returned]" b k]
  by (cases "getsize e tr path") (simp_all add: upload_part_calls_eq part_numbers_def)

subsection \<open>Suffixes\<close>

lemma endswith_suffix: "endswith s suf = suffix suf s"
proof
  assume "endswith s suf"
  then have "s = take (length s - length suf) s @ suf"
    by (metis append_take_drop_id endswith_def)
  then show "suffix suf s" by (metis suffixI)
next
  assume "suffix suf s"
  then obtain zs where "s = zs @ suf" by (auto simp: suffix_def)
  then show "endswith s suf" by (simp add: endswith_def)
qed

lemma is_included_iff:
  "is_included filename include_patterns = (\<exists>pattern\<in>set include_patterns. suffix pattern filename)"
  by (induction include_patterns) (simp_all add: endswith_suffix)

lemma backup_files_Nil_events:
  "backup_job e cfg tr = (r, tr') \<Longrightarrow> include_cfg cfg = None \<or> include_cfg cfg = Some [] \<Longrightarrow>
     checked (events_since tr tr') = [] \<and> written (events_since tr tr') = []"
  by (auto simp: backup_job_def backup_try_def split: option.splits sum.splits prod.splits)

subsection \<open>What the loop over the candidates adds to the history\<close>

lemma backup_files_extends_ex:
  "\<exists>evs. snd (backup_files e cfg dir bucket files tr) = tr @ evs"
proof (induction files arbitrary: tr)
  case Nil
  show ?case by simp
next
  case (Cons f files)
  show ?case
  proof (cases "prefix_cfg cfg")
    case None
    then show ?thesis by simp
  next
    case (Some p)
    let ?key = "p @ ''/'' @ get_current_date e tr @ ''/'' @ f"
    show ?thesis
    proof (cases "head_object e tr bucket ?key")
      case (Inr r)
      let ?tr1 = "tr @ [Call (Head_object bucket ?key) Returned]"
      from Cons[of ?tr1] obtain evs where
        "snd (backup_files e cfg dir bucket files ?tr1) = ?tr1 @ evs" by blast
      then have "snd (backup_files e cfg dir bucket (f # files) tr) =
          tr @ (Call (Head_object bucket ?key) Returned # evs)"
        using Some Inr by (simp add: check_file_existence_def)
      then show ?thesis by blast
    next
      case (Inl x)
      let ?m = "Msg_uploading (os_path_join dir f) bucket ?key"
      show ?thesis
      proof (cases "print_error e (tr @ [Call (Head_object bucket ?key) (Raised x)]) ?m")
        case (Some y)
        then show ?thesis using \<open>prefix_cfg cfg = Some p\<close> Inl
          by (simp add: check_file_existence_def)
      next
        case None
        let ?tr1 = "tr @ [Call (Head_object bucket ?key) (Raised x), Call (Print ?m) Returned]"
        let ?U = "upload_large_file_to_s3 e (os_path_join dir f) bucket ?key ?tr1"
        obtain r tr2 where U: "?U = (r, tr2)" by (cases ?U)
        have tr2: "tr2 = ?tr1 @ events_since ?tr1 tr2"
          using upload_extends[of e "os_path_join dir f" bucket ?key ?tr1] U by simp
        show ?thesis
        proof (cases r)
          case y: (Inl y)
          have "snd (backup_files e cfg dir bucket (f # files) tr) = tr2"
            using \<open>prefix_cfg cfg = Some p\<close> Inl None U y by (simp add: check_file_existence_def)
          with tr2 have "snd (backup_files e cfg dir bucket (f # files) tr) =
              tr @ (Call (Head_object bucket ?key) (Raised x) # Call (Print ?m) Returned
                # events_since ?tr1 tr2)" by simp
          then show ?thesis by blast
        next
          case u: (Inr u)
          from Cons[of tr2] obtain evs where
            evs: "snd (backup_files e cfg dir bucket files tr2) = tr2 @ evs" by blast
          have "snd (backup_files e cfg dir bucket (f # files) tr) =
              snd (backup_files e cfg dir bucket files tr2)"
            using \<open>prefix_cfg cfg = Some p\<close> Inl None U u by (simp add: check_file_existence_def)
          with evs tr2 have "snd (backup_files e cfg dir bucket (f # files) tr) =
              tr @ (Call (Head_object bucket ?key) (Raised x) # Call (Print ?m) Returned
                # events_since ?tr1 tr2 @ evs)"
            by (metis append.assoc append_Cons append_Nil)
          then show ?thesis by blast
        qed
      qed
    qed
  qed
qed

lemma backup_files_extends:
  "snd (backup_files e cfg dir bucket files tr) =
     tr @ events_since tr (snd (backup_files e cfg dir bucket files tr))"
  using backup_files_extends_ex[of e cfg dir bucket files tr] by auto

lemma backup_files_step:
  assumes "prefix_cfg cfg = Some p" and "key = p @ ''/'' @ strftime_Ymd (now e tr) @ ''/'' @ f"
  shows "backup_files e cfg dir bucket (f # files) tr =
     (case head_object e tr bucket key of
        Inr r \<Rightarrow> backup_files e cfg dir bucket files (tr @ [Call (Head_object bucket key) Returned])
      | Inl x \<Rightarrow>
          (case print_error e (tr @ [Call (Head_object bucket key) (Raised x)])
                  (Msg_uploading (os_path_join dir f) bucket key) of
             Some y \<Rightarrow>
               (Inl y, tr @ [Call (Head_object bucket key) (Raised x),
                  Call (Print (Msg_uploading (os_path_join dir f) bucket key)) (Raised y)])
           | None \<Rightarrow>
               (case upload_large_file_to_s3 e (os_path_join dir f) bucket key
                       (tr @ [Call (Head_object bucket key) (Raised x),
                          Call (Print (Msg_uploading (os_path_join dir f) bucket key)) Returned]) of
                  (Inl y, tr2) \<Rightarrow> (Inl y, tr2)
                | (Inr u, tr2) \<Rightarrow> backup_files e cfg dir bucket files tr2)))"
  using assms
  by (auto simp: get_current_date_def check_file_existence_def split: sum.splits option.splits prod.splits)

lemma backup_files_cases [case_names no_prefix present print_raised upload_raised uploaded]:
  obtains
    "prefix_cfg cfg = None"
    "backup_files e cfg dir bucket (f # files) tr = (Inl (KeyError ''prefix''), tr)"
  | p key where "prefix_cfg cfg = Some p"
     "key = p @ ''/'' @ strftime_Ymd (now e tr) @ ''/'' @ f"
     "head_object e tr bucket key = Inr ()"
     "backup_files e cfg dir bucket (f # files) tr =
        backup_files e cfg dir bucket files (tr @ [Call (Head_object bucket key) Returned])"
     "events_since tr (snd (backup_files e cfg dir bucket (f # files) tr)) =
        Call (Head_object bucket key) Returned
        # events_since (tr @ [Call (Head_object bucket key) Returned])
            (snd (backup_files e cfg dir bucket files (tr @ [Call (Head_object bucket key) Returned])))"
  | p key x y where "prefix_cfg cfg = Some p"
     "key = p @ ''/'' @ strftime_Ymd (now e tr) @ ''/'' @ f"
     "head_object e tr bucket key = Inl x"
     "print_error e (tr @ [Call (Head_object bucket key) (Raised x)])
        (Msg_uploading (os_path_join dir f) bucket key) = Some y"
     "fst (backup_files e cfg dir bucket (f # files) tr) = Inl y"
     "events_since tr (snd (backup_files e cfg dir bucket (f # files) tr)) =
        [Call (Head_object bucket key) (Raised x),
         Call (Print (Msg_uploading (os_path_join dir f) bucket key)) (Raised y)]"
  | p key x y where "prefix_cfg cfg = Some p"
     "key = p @ ''/'' @ strftime_Ymd (now e tr) @ ''/'' @ f"
     "head_object e tr bucket key = Inl x"
     "fst (upload_large_file_to_s3 e (os_path_join dir f) bucket key
        (tr @ [Call (Head_object bucket key) (Raised x),
           Call (Print (Msg_uploading (os_path_join dir f) bucket key)) Returned])) = Inl y"
     "fst (backup_files e cfg dir bucket (f # files) tr) = Inl y"
     "events_since tr (snd (backup_files e cfg dir bucket (f # files) tr)) =
        Call (Head_object bucket key) (Raised x)
        # Call (Print (Msg_uploading (os_path_join dir f) bucket key)) Returned
        # events_since (tr @ [Call (Head_object bucket key) (Raised x),
              Call (Print (Msg_uploading (os_path_join dir f) bucket key)) Returned])
            (snd (upload_large_file_to_s3 e (os_path_join dir f) bucket key
              (tr @ [Call (Head_object bucket key) (Raised x),
                 Call (Print (Msg_uploading (os_path_join dir f) bucket key)) Returned])))"
  | p key x tr2 where "prefix_cfg cfg = Some p"
     "key = p @ ''/'' @ strftime_Ymd (now e tr) @ ''/'' @ f"
     "head_object e tr bucket key = Inl x"
     "upload_large_file_to_s3 e (os_path_join dir f) bucket key
        (tr @ [Call (Head_object bucket key) (Raised x),
           Call (Print (Msg_uploading (os_path_join dir f) bucket key)) Returned]) = (Inr (), tr2)"
     "backup_files e cfg dir bucket (f # files) tr = backup_files e cfg dir bucket files tr2"
     "tr2 = tr @ Call (Head_object bucket key) (Raised x)
        # Call (Print (Msg_uploading (os_path_join dir f) bucket key)) Returned
        # events_since (tr @ [Call (Head_object bucket key) (Raised x),
              Call (Print (Msg_uploading (os_path_join dir f) bucket key)) Returned]) tr2"
     "events_since tr (snd (backup_files e cfg dir bucket (f # files) tr)) =
        Call (Head_object bucket key) (Raised x)
        # Call (Print (Msg_uploading (os_path_join dir f) bucket key)) Returned
        # events_since (tr @ [Call (Head_object bucket key) (Raised x),
              Call (Print (Msg_uploading (os_path_join dir f) bucket key)) Returned]) tr2
        @ events_since tr2 (snd (backup_files e cfg dir bucket files tr2))"
proof (cases "prefix_cfg cfg")
  case None
  then show ?thesis using that(1) by simp
next
  case (Some p)
  define key where "key = p @ ''/'' @ strftime_Ymd (now e tr) @ ''/'' @ f"
  note step = backup_files_step[OF Some key_def, of dir bucket files]
  show ?thesis
  proof (cases "head_object e tr bucket key")
    case (Inr r)
    let ?tr1 = "tr @ [Call (Head_object bucket key) Returned]"
    have eq: "backup_files e cfg dir bucket (f # files) tr = backup_files e cfg dir bucket files ?tr1"
      using Inr by (simp add: step del: backup_files.simps)
    have "snd (backup_files e cfg dir bucket files ?tr1) =
        ?tr1 @ events_since ?tr1 (snd (backup_files e cfg dir bucket files ?tr1))"
      by (rule backup_files_extends)
    then have "snd (backup_files e cfg dir bucket (f # files) tr) =
        tr @ (Call (Head_object bucket key) Returned
          # events_since ?tr1 (snd (backup_files e cfg dir bucket files ?tr1)))"
      unfolding eq by simp
    then have "events_since tr (snd (backup_files e cfg dir bucket (f # files) tr)) =
        Call (Head_object bucket key) Returned
          # events_since ?tr1 (snd (backup_files e cfg dir bucket files ?tr1))"
      by (metis events_since_append)
    then show ?thesis using that(2)[of p key] Some Inr eq key_def by simp
  next
    case (Inl x)
    let ?m = "Msg_uploading (os_path_join dir f) bucket key"
    show ?thesis
    proof (cases "print_error e (tr @ [Call (Head_object bucket key) (Raised x)]) ?m")
      case pr: (Some y)
      have eq: "backup_files e cfg dir bucket (f # files) tr =
          (Inl y, tr @ [Call (Head_object bucket key) (Raised x), Call (Print ?m) (Raised y)])"
        using Inl pr by (simp add: step del: backup_files.simps)
      then show ?thesis using that(3)[of p key x y] Some Inl pr key_def by simp
    next
      case pr: None
      let ?tr1 = "tr @ [Call (Head_object bucket key) (Raised x), Call (Print ?m) Returned]"
      let ?U = "upload_large_file_to_s3 e (os_path_join dir f) bucket key ?tr1"
      obtain r tr2 where U: "?U = (r, tr2)" by (cases ?U)
      have "tr2 = ?tr1 @ events_since ?tr1 tr2"
        using upload_extends[of e "os_path_join dir f" bucket key ?tr1] U by simp
      then have tr2: "tr2 = tr @ Call (Head_object bucket key) (Raised x) # Call (Print ?m) Returned
          # events_since ?tr1 tr2"
        by simp
      show ?thesis
      proof (cases r)
        case y: (Inl y)
        have eq: "backup_files e cfg dir bucket (f # files) tr = (Inl y, tr2)"
          using Inl pr U y by (simp add: step del: backup_files.simps)
        have "events_since tr (snd (backup_files e cfg dir bucket (f # files) tr)) =
            Call (Head_object bucket key) (Raised x) # Call (Print ?m) Returned # events_since ?tr1 tr2"
          unfolding eq using tr2 by (metis events_since_append snd_conv)
        then show ?thesis using that(4)[of p key x y] Some Inl U y eq key_def by simp
      next
        case u: (Inr u)
        have eq: "backup_files e cfg dir bucket (f # files) tr = backup_files e cfg dir bucket files tr2"
          using Inl pr U u by (simp add: step del: backup_files.simps)
        have "snd (backup_files e cfg dir bucket files tr2) =
            tr2 @ events_since tr2 (snd (backup_files e cfg dir bucket files tr2))"
          by (rule backup_files_extends)
        with tr2 have "snd (backup_files e cfg dir bucket files tr2) =
            tr @ (Call (Head_object bucket key) (Raised x) # Call (Print ?m) Returned
              # events_since ?tr1 tr2
              @ events_since tr2 (snd (backup_files e cfg dir bucket files tr2)))"
          by (metis append.assoc append_Cons)
        then have "events_since tr (snd (backup_files e cfg dir bucket (f # files) tr)) =
            Call (Head_object bucket key) (Raised x) # Call (Print ?m) Returned
              # events_since ?tr1 tr2
              @ events_since tr2 (snd (backup_files e cfg dir bucket files tr2))"
          unfolding eq by (metis events_since_append)
        then show ?thesis using that(5)[of p key x tr2] Some Inl U u eq tr2 key_def by simp
      qed
    qed
  qed
qed

subsection \<open>What one run of the job adds to the history\<close>

lemma backup_try_cases [case_names no_folder no_bucket listdir_raised listed]:
  obtains
    "backup_try e cfg tr = (Inl (KeyError ''folder''), tr)"
  | "backup_try e cfg tr = (Inl (KeyError ''s3_bucket_name''), tr)"
  | dir x where
    "backup_try e cfg tr = (Inl x, tr @ [Call (Listdir dir) (Raised x)])"
  | dir bucket names where
    "folder_cfg cfg = Some dir" "s3_bucket_name_cfg cfg = Some bucket" "listdir e tr dir = Inr names"
    "backup_try e cfg tr =
       backup_files e cfg dir bucket
         (filter (\<lambda>file. is_included file (case include_cfg cfg of None \<Rightarrow> [] | Some ps \<Rightarrow> ps)) names)
         (tr @ [Call (Listdir dir) Returned])"
    "events_since tr (snd (backup_try e cfg tr)) =
       Call (Listdir dir) Returned
       # events_since (tr @ [Call (Listdir dir) Returned]) (snd (backup_try e cfg tr))"
proof (cases "folder_cfg cfg")
  case None
  then show ?thesis using that(1) by (simp add: backup_try_def)
next
  case dir: (Some dir)
  show ?thesis
  proof (cases "s3_bucket_name_cfg cfg")
    case None
    then show ?thesis using that(2) dir by (simp add: backup_try_def)
  next
    case bucket: (Some bucket)
    show ?thesis
    proof (cases "listdir e tr dir")
      case (Inl x)
      then show ?thesis using that(3) dir bucket by (simp add: backup_try_def)
    next
      case (Inr names)
      let ?tr0 = "tr @ [Call (Listdir dir) Returned]"
      let ?files = "filter (\<lambda>file. is_included file (case include_cfg cfg of None \<Rightarrow> [] | Some ps \<Rightarrow> ps)) names"
      have t: "backup_try e cfg tr = backup_files e cfg dir bucket ?files ?tr0"
        using dir bucket Inr by (simp add: backup_try_def)
      have "snd (backup_try e cfg tr) = ?tr0 @ events_since ?tr0 (snd (backup_try e cfg tr))"
        unfolding t by (rule backup_files_extends)
      then have "snd (backup_try e cfg tr) =
         tr @ (Call (Listdir dir) Returned # events_since ?tr0 (snd (backup_try e cfg tr)))"
        by simp
      then have "events_since tr (snd (backup_try e cfg tr)) =
         Call (Listdir dir) Returned # events_since ?tr0 (snd (backup_try e cfg tr))"
        by (metis events_since_append)
      then show ?thesis using that(4) dir bucket Inr t by blast
    qed
  qed
qed

lemma backup_try_extends:
  "snd (backup_try e cfg tr) = tr @ events_since tr (snd (backup_try e cfg tr))"
proof (cases rule: backup_try_cases[of e cfg tr])
  case (listed dir bucket names)
  have "snd (backup_try e cfg tr) = (tr @ [Call (Listdir dir) Returned])
      @ events_since (tr @ [Call (Listdir dir) Returned]) (snd (backup_try e cfg tr))"
    unfolding listed(4) by (rule backup_files_extends)
  then show ?thesis unfolding listed(5) by simp
qed simp_all

lemma backup_job_snd:
  "snd (backup_job e cfg tr) = snd (backup_try e cfg tr) @ handler_events e (backup_try e cfg tr)"
  by (simp add: backup_job_def handler_events_def split: prod.splits sum.splits option.splits)

lemma backup_job_events:
  "events_since tr (snd (backup_job e cfg tr)) =
     events_since tr (snd (backup_try e cfg tr)) @ handler_events e (backup_try e cfg tr)"
proof -
  have "snd (backup_job e cfg tr) =
      tr @ events_since tr (snd (backup_try e cfg tr)) @ handler_events e (backup_try e cfg tr)"
    using backup_job_snd[of e cfg tr] backup_try_extends[of e cfg tr] by simp
  then show ?thesis by (metis events_since_append)
qed

lemma backup_job_fst:
  "fst (backup_job e cfg tr) =
     (case fst (backup_try e cfg tr) of
        Inr u \<Rightarrow> Inr ()
      | Inl x \<Rightarrow>
          (case print_error e (snd (backup_try e cfg tr)) (Msg_job_error x) of
             Some y \<Rightarrow> Inl y
           | None \<Rightarrow> Inr ()))"
  by (simp add: backup_job_def split: prod.splits sum.splits option.splits)

lemma handler_events_quiet [simp]:
  "written (handler_events e r) = []" "completed (handler_events e r) = []"
  "checked (handler_events e r) = []" "part_calls (handler_events e r) = []"
  by (simp_all add: handler_events_def split: sum.splits option.splits)

subsection \<open>C1: a key that exists is skipped, and is completed at most once\<close>

lemma backup_files_skips:
  assumes "\<forall>t. head_object e (tr @ t) b0 k0 = Inr ()"
  shows "(b0, k0) \<notin> set (written (events_since tr (snd (backup_files e cfg dir bucket files tr))))"
  using assms
proof (induction files arbitrary: tr)
  case Nil
  show ?case by simp
next
  case (Cons f files)
  have here: "head_object e tr b0 k0 = Inr ()" using Cons.prems[rule_format, of "[]"] by simp
  show ?case
  proof (cases rule: backup_files_cases[of cfg e dir bucket f files tr])
    case no_prefix
    then show ?thesis by simp
  next
    case (present p key)
    let ?tr1 = "tr @ [Call (Head_object bucket key) Returned]"
    have "\<forall>t. head_object e (?tr1 @ t) b0 k0 = Inr ()"
      using Cons.prems by simp
    from Cons.IH[OF this] show ?thesis unfolding present(5) by simp
  next
    case (print_raised p key x y)
    then show ?thesis by simp
  next
    case (upload_raised p key x y)
    from upload_raised(3) here have "(bucket, key) \<noteq> (b0, k0)"
      by auto
    then show ?thesis
      unfolding upload_raised(6)
      using upload_written[of "tr @ [Call (Head_object bucket key) (Raised x),
           Call (Print (Msg_uploading (os_path_join dir f) bucket key)) Returned]"
          e "os_path_join dir f" bucket key]
      by auto
  next
    case (uploaded p key x tr2)
    let ?tr1 = "tr @ [Call (Head_object bucket key) (Raised x),
           Call (Print (Msg_uploading (os_path_join dir f) bucket key)) Returned]"
    from uploaded(3) here have ne: "(bucket, key) \<noteq> (b0, k0)"
      by auto
    have w: "set (written (events_since ?tr1 tr2)) \<subseteq> {(bucket, key)}"
      using upload_written[of ?tr1 e "os_path_join dir f" bucket key] uploaded(4)
      by simp
    obtain E where "tr2 = tr @ E" using uploaded(6) by blast
    then have "\<forall>t. head_object e (tr2 @ t) b0 k0 = Inr ()"
      using Cons.prems by simp
    from Cons.IH[OF this] ne w show ?thesis
      unfolding uploaded(7) by auto
  qed
qed

lemma count_list_le_one:
  "set xs \<subseteq> {a} \<Longrightarrow> length xs \<le> 1 \<Longrightarrow> count_list xs z \<le> (if z = a then 1 else 0)"
  by (cases xs) auto

lemma upload_completes_once:
  assumes "(b, k) = (b0, k0) \<longrightarrow> (b0, k0) \<notin> set (completed tr)"
    and "count_list (completed tr) (b0, k0) \<le> 1"
  shows "count_list (completed (snd (upload_large_file_to_s3 e path b k tr))) (b0, k0) \<le> 1"
proof -
  let ?evs = "events_since tr (snd (upload_large_file_to_s3 e path b k tr))"
  have c: "count_list (completed ?evs) (b0, k0) \<le> (if (b0, k0) = (b, k) then 1 else 0)"
    using upload_completed[of tr e path b k] by (intro count_list_le_one) auto
  have "completed (snd (upload_large_file_to_s3 e path b k tr)) = completed tr @ completed ?evs"
    using upload_extends[of e path b k tr] by (metis completed_append)
  then have "count_list (completed (snd (upload_large_file_to_s3 e path b k tr))) (b0, k0) =
      count_list (completed tr) (b0, k0) + count_list (completed ?evs) (b0, k0)"
    by simp
  with c assms show ?thesis
    by (cases "(b, k) = (b0, k0)") (auto simp: count_list_0_iff split: if_splits)
qed

lemma backup_files_completes_once:
  assumes "\<forall>t. (b0, k0) \<in> set (completed t) \<longrightarrow> head_object e t b0 k0 = Inr ()"
    and "count_list (completed tr) (b0, k0) \<le> 1"
  shows "count_list (completed (snd (backup_files e cfg dir bucket files tr))) (b0, k0) \<le> 1"
  using assms(2)
proof (induction files arbitrary: tr)
  case Nil
  then show ?case by simp
next
  case (Cons f files)
  show ?case
  proof (cases rule: backup_files_cases[of cfg e dir bucket f files tr])
    case no_prefix
    then show ?thesis using Cons.prems by simp
  next
    case (present p key)
    then show ?thesis using Cons.IH[of "tr @ [Call (Head_object bucket key) Returned]"]
        Cons.prems by simp
  next
    case (print_raised p key x y)
    have "snd (backup_files e cfg dir bucket (f # files) tr) =
        tr @ [Call (Head_object bucket key) (Raised x),
         Call (Print (Msg_uploading (os_path_join dir f) bucket key)) (Raised y)]"
      using backup_files_extends[of e cfg dir bucket "f # files" tr]
      unfolding print_raised(6) by simp
    then show ?thesis using Cons.prems by simp
  next
    case (upload_raised p key x y)
    let ?tr1 = "tr @ [Call (Head_object bucket key) (Raised x),
           Call (Print (Msg_uploading (os_path_join dir f) bucket key)) Returned]"
    have a: "(bucket, key) = (b0, k0) \<longrightarrow> (b0, k0) \<notin> set (completed ?tr1)"
      using upload_raised(3) assms(1) by auto
    have b: "count_list (completed ?tr1) (b0, k0) \<le> 1" using Cons.prems by simp
    have "snd (backup_files e cfg dir bucket (f # files) tr) =
        snd (upload_large_file_to_s3 e (os_path_join dir f) bucket key ?tr1)"
      using backup_files_extends[of e cfg dir bucket "f # files" tr]
        upload_extends[of e "os_path_join dir f" bucket key ?tr1]
      unfolding upload_raised(6) by simp
    then show ?thesis using upload_completes_once[OF a b] by simp
  next
    case (uploaded p key x tr2)
    let ?tr1 = "tr @ [Call (Head_object bucket key) (Raised x),
           Call (Print (Msg_uploading (os_path_join dir f) bucket key)) Returned]"
    have a: "(bucket, key) = (b0, k0) \<longrightarrow> (b0, k0) \<notin> set (completed ?tr1)"
      using uploaded(3) assms(1) by auto
    have b: "count_list (completed ?tr1) (b0, k0) \<le> 1" using Cons.prems by simp
    have "count_list (completed tr2) (b0, k0) \<le> 1"
      using upload_completes_once[OF a b, of e "os_path_join dir f"] uploaded(4) by simp
    then show ?thesis unfolding uploaded(5) by (rule Cons.IH)
  qed
qed

lemma backup_job_skips:
  assumes h: "\<forall>t. head_object e (tr @ t) b k = Inr ()"
  shows "(b, k) \<notin> set (written (events_since tr (snd (backup_job e cfg tr))))"
proof (cases rule: backup_try_cases[of e cfg tr])
  case (listed dir bucket names)
  have "\<forall>t. head_object e ((tr @ [Call (Listdir dir) Returned]) @ t) b k = Inr ()"
    using h by simp
  from backup_files_skips[OF this] show ?thesis
    unfolding backup_job_events listed(5) unfolding listed(4) by simp
qed (simp_all add: backup_job_events)

lemma backup_job_completes_once:
  assumes h: "\<forall>t. (b, k) \<in> set (completed t) \<longrightarrow> head_object e t b k = Inr ()"
    and c: "count_list (completed tr) (b, k) \<le> 1"
  shows "count_list (completed (snd (backup_job e cfg tr))) (b, k) \<le> 1"
proof (cases rule: backup_try_cases[of e cfg tr])
  case (listed dir bucket names)
  have "count_list (completed (tr @ [Call (Listdir dir) Returned])) (b, k) \<le> 1"
    using c by simp
  from backup_files_completes_once[OF h this]
  show ?thesis unfolding backup_job_snd unfolding listed(4) by simp
qed (use c in \<open>simp_all add: backup_job_snd\<close>)

subsection \<open>C8: the candidates are the names that end with an include suffix\<close>

text \<open>
  C8. A listed file name is included if and only if it ends with at least one of the
  configured include suffixes. The loop of the job runs over exactly the listed names that
  do, in the order of the listing. When the include list is absent or empty, no name is a
  candidate: the run makes no existence check and no upload call.
\<close>
theorem candidates_are_suffix_matches:
  "(is_included filename include_patterns \<longleftrightarrow>
      (\<exists>pattern\<in>set include_patterns. suffix pattern filename))
   \<and> (folder_cfg cfg = Some dir \<and> s3_bucket_name_cfg cfg = Some bucket
        \<and> listdir e tr dir = Inr names \<longrightarrow>
      backup_try e cfg tr =
        backup_files e cfg dir bucket
          (filter (\<lambda>file. \<exists>pattern\<in>set (case include_cfg cfg of None \<Rightarrow> [] | Some ps \<Rightarrow> ps).
                     suffix pattern file) names)
          (tr @ [Call (Listdir dir) Returned]))
   \<and> (include_cfg cfg = None \<or> include_cfg cfg = Some [] \<longrightarrow>
        checked (events_since tr (snd (backup_job e cfg tr))) = []
        \<and> written (events_since tr (snd (backup_job e cfg tr))) = [])"
proof (intro conjI impI)
  show "is_included filename include_patterns \<longleftrightarrow>
      (\<exists>pattern\<in>set include_patterns. suffix pattern filename)"
    by (rule is_included_iff)
next
  assume "folder_cfg cfg = Some dir \<and> s3_bucket_name_cfg cfg = Some bucket
        \<and> listdir e tr dir = Inr names"
  then show "backup_try e cfg tr =
        backup_files e cfg dir bucket
          (filter (\<lambda>file. \<exists>pattern\<in>set (case include_cfg cfg of None \<Rightarrow> [] | Some ps \<Rightarrow> ps).
                     suffix pattern file) names)
          (tr @ [Call (Listdir dir) Returned])"
    by (simp add: backup_try_def is_included_iff)
next
  assume a: "include_cfg cfg = None \<or> include_cfg cfg = Some []"
  show "checked (events_since tr (snd (backup_job e cfg tr))) = []"
    using backup_files_Nil_events[OF _ a, of e tr] by (metis prod.collapse)
  show "written (events_since tr (snd (backup_job e cfg tr))) = []"
    using backup_files_Nil_events[OF _ a, of e tr] by (metis prod.collapse)
qed

theorem candidates_are_suffix_matches_witness:
  "(folder_cfg (example_cfg [''.log'']) = Some ''/data''
      \<and> s3_bucket_name_cfg (example_cfg [''.log'']) = Some ''bucket''
      \<and> listdir (example_env [''x.log'', ''y.tmp''] [] no_head (\<lambda>k. Inr ''id'') (\<lambda>n. Inr ''t'') all_printed) [] ''/data'' =
          Inr [''x.log'', ''y.tmp''])
   \<and> is_included ''x.log'' [''.log''] \<and> \<not> is_included ''y.tmp'' [''.log'']
   \<and> backup_try (example_env [''x.log'', ''y.tmp''] [] no_head (\<lambda>k. Inr ''id'') (\<lambda>n. Inr ''t'') all_printed) (example_cfg [''.log'']) [] =
       backup_files (example_env [''x.log'', ''y.tmp''] [] no_head (\<lambda>k. Inr ''id'') (\<lambda>n. Inr ''t'') all_printed) (example_cfg [''.log''])
         ''/data'' ''bucket'' [''x.log''] [Call (Listdir ''/data'') Returned]
   \<and> include_cfg (example_cfg []) = Some []
   \<and> checked (events_since [] (snd (backup_job (example_env [''x.log'', ''y.tmp''] [] no_head (\<lambda>k. Inr ''id'') (\<lambda>n. Inr ''t'') all_printed)
         (example_cfg []) []))) = []"
proof -
  let ?e = "example_env [''x.log'', ''y.tmp''] [] no_head (\<lambda>k. Inr ''id'') (\<lambda>n. Inr ''t'') all_printed"
  have h: "folder_cfg (example_cfg [''.log'']) = Some ''/data''
      \<and> s3_bucket_name_cfg (example_cfg [''.log'']) = Some ''bucket''
      \<and> listdir ?e [] ''/data'' = Inr [''x.log'', ''y.tmp'']"
    by (simp add: example_cfg_def example_env_def)
  have f: "filter (\<lambda>file. \<exists>pattern\<in>set (case include_cfg (example_cfg [''.log'']) of None \<Rightarrow> [] | Some ps \<Rightarrow> ps).
                     suffix pattern file) [''x.log'', ''y.tmp''] = [''x.log'']"
    by (simp add: example_cfg_def suffix_to_prefix)
  have s: "suffix ''.log'' ''x.log''" "\<not> suffix ''.log'' ''y.tmp''"
    by (simp_all add: suffix_to_prefix)
  have i: "include_cfg (example_cfg []) = Some []"
    by (simp add: example_cfg_def)
  note a = candidates_are_suffix_matches[of "''x.log''" "[''.log'']" "example_cfg [''.log'']" "''/data''" "''bucket''"
      ?e "[]" "[''x.log'', ''y.tmp'']"]
  note b = candidates_are_suffix_matches[of "''y.tmp''" "[''.log'']" "example_cfg []" "''/data''" "''bucket''"
      ?e "[]" "[''x.log'', ''y.tmp'']"]
  have 1: "is_included ''x.log'' [''.log'']" using a [THEN conjunct1] s by (simp del: is_included.simps)
  have 2: "\<not> is_included ''y.tmp'' [''.log'']" using b [THEN conjunct1] s by (simp del: is_included.simps)
  have 3: "backup_try ?e (example_cfg [''.log'']) [] =
       backup_files ?e (example_cfg [''.log'']) ''/data'' ''bucket'' [''x.log''] [Call (Listdir ''/data'') Returned]"
  proof -
    from a [THEN conjunct2, THEN conjunct1] h
    have "backup_try ?e (example_cfg [''.log'']) [] =
       backup_files ?e (example_cfg [''.log'']) ''/data'' ''bucket''
         (filter (\<lambda>file. \<exists>pattern\<in>set (case include_cfg (example_cfg [''.log'']) of None \<Rightarrow> [] | Some ps \<Rightarrow> ps).
                     suffix pattern file) [''x.log'', ''y.tmp''])
         ([] @ [Call (Listdir ''/data'') Returned])" by blast
    then show ?thesis by (simp only: f append_Nil)
  qed
  have 4: "checked (events_since [] (snd (backup_job ?e (example_cfg []) []))) = []"
    using b [THEN conjunct2, THEN conjunct2] i by blast
  from h 1 2 3 i 4 show ?thesis by blast
qed

subsection \<open>C1: the theorem\<close>

text \<open>
  C1. When the existence check reports, all through a run of \<open>backup_job\<close>, that an object
  stands at (bucket, key), the run makes no \<open>create_multipart_upload\<close>, \<open>upload_part\<close> or
  \<open>complete_multipart_upload\<close> call for that key, whatever the source file holds now.
  So, with a store whose existence check reports every object whose upload completed,
  a key that was completed at most once before a run is completed at most once after it:
  over any sequence of runs, at most one completion per (bucket, key) ever succeeds.
\<close>

theorem existing_key_is_never_uploaded_again:
  "((\<forall>t. head_object e (tr @ t) b k = Inr ()) \<longrightarrow>
      (b, k) \<notin> set (written (events_since tr (snd (backup_job e cfg tr)))))
   \<and> ((\<forall>t. (b, k) \<in> set (completed t) \<longrightarrow> head_object e t b k = Inr ())
        \<and> count_list (completed tr) (b, k) \<le> 1 \<longrightarrow>
      count_list (completed (snd (backup_job e cfg tr))) (b, k) \<le> 1)"
proof (intro conjI impI)
  assume h: "\<forall>t. head_object e (tr @ t) b k = Inr ()"
  then show "(b, k) \<notin> set (written (events_since tr (snd (backup_job e cfg tr))))"
    by (rule backup_job_skips)
next
  assume h: "(\<forall>t. (b, k) \<in> set (completed t) \<longrightarrow> head_object e t b k = Inr ())
        \<and> count_list (completed tr) (b, k) \<le> 1"
  show "count_list (completed (snd (backup_job e cfg tr))) (b, k) \<le> 1"
    by (rule backup_job_completes_once[OF h[THEN conjunct1] h[THEN conjunct2]])
qed

lemmas run_defs =
  backup_job_def backup_try_def check_file_existence_def get_current_date_def strftime_Ymd_def
  digit_def upload_large_file_to_s3_def upload_try_def os_path_join_def upload_parts.simps
  part_size_def endswith_def example_env_def example_cfg_def store_head_def no_head_def
  all_printed_def digits.simps zero_padded_def

lemma example_first_run:
  "snd (backup_job (example_env [''a.sql''] [1, 2, 3] store_head (\<lambda>k. Inr ''id'') (\<lambda>n. Inr ''etag'') all_printed)
     (example_cfg [''.sql'']) []) =
   [Call (Listdir ''/data'') Returned,
    Call (Head_object ''bucket'' ''db/2024-03-01/a.sql'') (Raised (OtherError ''ClientError'')),
    Call (Print (Msg_uploading ''/data/a.sql'' ''bucket'' ''db/2024-03-01/a.sql'')) Returned,
    Call (Getsize ''/data/a.sql'') Returned,
    Call (Create_multipart_upload ''bucket'' ''db/2024-03-01/a.sql'') (Returned_id ''id''),
    Call (Open_rb ''/data/a.sql'') Returned,
    Call (Read_file ''/data/a.sql'' 5242880) Returned,
    Call (Upload_part ''bucket'' ''db/2024-03-01/a.sql'' 1 ''id'' [1, 2, 3])
      (Returned_id ''etag''),
    Call (Print (Msg_progress 5242880 2)) Returned,
    Call (Read_file ''/data/a.sql'' 5242880) Returned,
    Call (Complete_multipart_upload ''bucket'' ''db/2024-03-01/a.sql'' ''id''
      [(1, ''etag'')]) Returned,
    Log (Uploaded ''/data/a.sql'' ''bucket'' ''db/2024-03-01/a.sql''),
    Call (Print (Msg_uploaded ''/data/a.sql'' ''bucket'' ''db/2024-03-01/a.sql'')) Returned]"
  by (simp add: run_defs)

theorem existing_key_is_never_uploaded_again_witness:
  "(''bucket'', ''db/2024-03-01/a.sql'') \<in> set (completed
      (snd (backup_job (example_env [''a.sql''] [1, 2, 3] store_head (\<lambda>k. Inr ''id'') (\<lambda>n. Inr ''etag'') all_printed)
         (example_cfg [''.sql'']) [])))
   \<and> count_list (completed
      (snd (backup_job (example_env [''a.sql''] [1, 2, 3] store_head (\<lambda>k. Inr ''id'') (\<lambda>n. Inr ''etag'') all_printed)
         (example_cfg [''.sql'']) []))) (''bucket'', ''db/2024-03-01/a.sql'') \<le> 1
   \<and> (''bucket'', ''db/2024-03-01/a.sql'') \<notin> set (written (events_since
      (snd (backup_job (example_env [''a.sql''] [1, 2, 3] store_head (\<lambda>k. Inr ''id'') (\<lambda>n. Inr ''etag'') all_printed)
         (example_cfg [''.sql'']) []))
      (snd (backup_job (example_env [''a.sql''] [1, 2, 3] store_head (\<lambda>k. Inr ''id'') (\<lambda>n. Inr ''etag'') all_printed)
         (example_cfg [''.sql''])
         (snd (backup_job (example_env [''a.sql''] [1, 2, 3] store_head (\<lambda>k. Inr ''id'') (\<lambda>n. Inr ''etag'') all_printed)
            (example_cfg [''.sql'']) []))))))
   \<and> count_list (completed
      (snd (backup_job (example_env [''a.sql''] [1, 2, 3] store_head (\<lambda>k. Inr ''id'') (\<lambda>n. Inr ''etag'') all_printed)
         (example_cfg [''.sql''])
         (snd (backup_job (example_env [''a.sql''] [1, 2, 3] store_head (\<lambda>k. Inr ''id'') (\<lambda>n. Inr ''etag'') all_printed)
            (example_cfg [''.sql'']) []))))) (''bucket'', ''db/2024-03-01/a.sql'') \<le> 1"
proof -
  let ?e = "example_env [''a.sql''] [1, 2, 3] store_head (\<lambda>k. Inr ''id'') (\<lambda>n. Inr ''etag'') all_printed"
  let ?c = "example_cfg [''.sql'']"
  let ?h = "snd (backup_job ?e ?c [])"
  have 1: "(''bucket'', ''db/2024-03-01/a.sql'') \<in> set (completed ?h)"
    unfolding example_first_run by simp
  have 2: "count_list (completed ?h) (''bucket'', ''db/2024-03-01/a.sql'') \<le> 1"
    unfolding example_first_run by simp
  have 3: "\<forall>t. head_object ?e (?h @ t) ''bucket'' ''db/2024-03-01/a.sql'' = Inr ()"
    using 1 by (simp add: example_env_def store_head_def)
  have 4: "\<forall>t. (''bucket'', ''db/2024-03-01/a.sql'') \<in> set (completed t) \<longrightarrow>
      head_object ?e t ''bucket'' ''db/2024-03-01/a.sql'' = Inr ()"
    by (simp add: example_env_def store_head_def)
  from existing_key_is_never_uploaded_again[of ?e ?h "''bucket''" "''db/2024-03-01/a.sql''" ?c] 1 2 3 4
  show ?thesis by blast
qed

subsection \<open>C10: a file of zero bytes\<close>

text \<open>
  C10. For a source file of zero bytes (the size is read, the session opens, the file opens
  and its first read, which does not fail, delivers nothing), \<open>upload_large_file_to_s3\<close>
  calls \<open>create_multipart_upload\<close>, makes no \<open>upload_part\<close> call, and then calls
  \<open>complete_multipart_upload\<close> with an empty list of parts.
\<close>

theorem zero_byte_file_completes_with_no_parts:
  assumes "getsize e tr path = Inr file_size"
    and "create_multipart_upload e (tr @ [Call (Getsize path) Returned]) b k = Inr u"
    and "open_rb e (tr @ [Call (Getsize path) Returned,
           Call (Create_multipart_upload b k) (Returned_id u)]) path = Inr []"
    and "read_error e (tr @ [Call (Getsize path) Returned,
           Call (Create_multipart_upload b k) (Returned_id u), Call (Open_rb path) Returned]) path = None"
  shows "part_calls (events_since tr (snd (upload_large_file_to_s3 e path b k tr))) = []
     \<and> (\<exists>oc. s3_calls (events_since tr (snd (upload_large_file_to_s3 e path b k tr))) =
           [Call (Create_multipart_upload b k) (Returned_id u),
            Call (Complete_multipart_upload b k u []) oc])"
  using assms
  by (auto simp: upload_large_file_to_s3_def upload_try_def upload_parts.simps upload_except_Inl
      split: sum.splits option.splits)

theorem zero_byte_file_completes_with_no_parts_witness:
  "s3_calls (events_since [] (snd (upload_large_file_to_s3
      (example_env [''empty.sql''] [] no_head (\<lambda>k. Inr ''id'') (\<lambda>n. Inr ''etag'') all_printed)
      ''/data/empty.sql'' ''bucket'' ''db/2024-03-01/empty.sql'' []))) =
    [Call (Create_multipart_upload ''bucket'' ''db/2024-03-01/empty.sql'') (Returned_id ''id''),
     Call (Complete_multipart_upload ''bucket'' ''db/2024-03-01/empty.sql'' ''id'' []) Returned]"
proof -
  let ?e = "example_env [''empty.sql''] [] no_head (\<lambda>k. Inr ''id'') (\<lambda>n. Inr ''etag'') all_printed"
  have h: "getsize ?e [] ''/data/empty.sql'' = Inr 0"
    "create_multipart_upload ?e ([] @ [Call (Getsize ''/data/empty.sql'') Returned])
       ''bucket'' ''db/2024-03-01/empty.sql'' = Inr ''id''"
    "open_rb ?e ([] @ [Call (Getsize ''/data/empty.sql'') Returned,
       Call (Create_multipart_upload ''bucket'' ''db/2024-03-01/empty.sql'') (Returned_id ''id'')])
       ''/data/empty.sql'' = Inr []"
    "read_error ?e ([] @ [Call (Getsize ''/data/empty.sql'') Returned,
       Call (Create_multipart_upload ''bucket'' ''db/2024-03-01/empty.sql'') (Returned_id ''id''),
       Call (Open_rb ''/data/empty.sql'') Returned]) ''/data/empty.sql'' = None"
    by (simp_all add: example_env_def)
  from zero_byte_file_completes_with_no_parts[OF h] obtain oc where
    oc: "s3_calls (events_since [] (snd (upload_large_file_to_s3 ?e ''/data/empty.sql'' ''bucket''
        ''db/2024-03-01/empty.sql'' []))) =
      [Call (Create_multipart_upload ''bucket'' ''db/2024-03-01/empty.sql'') (Returned_id ''id''),
       Call (Complete_multipart_upload ''bucket'' ''db/2024-03-01/empty.sql'' ''id'' []) oc]"
    by blast
  have "s3_calls (events_since [] (snd (upload_large_file_to_s3 ?e ''/data/empty.sql'' ''bucket''
        ''db/2024-03-01/empty.sql'' []))) =
      [Call (Create_multipart_upload ''bucket'' ''db/2024-03-01/empty.sql'') (Returned_id ''id''),
       Call (Complete_multipart_upload ''bucket'' ''db/2024-03-01/empty.sql'' ''id'' []) Returned]"
    by (simp add: run_defs events_since_def)
  with oc show ?thesis by simp
qed

subsection \<open>C2: part numbers and the completion list\<close>

text \<open>
  C2. Whatever the outcome of an upload, its \<open>upload_part\<close> calls are numbered 1, 2, 3, ...
  in the order in which they are made, and the i-th call carries the i-th chunk of the
  file (the chunks being taken in file order). Every \<open>complete_multipart_upload\<close> call is
  made after all chunks were uploaded, and its list of parts is the list of the part
  numbers and tags returned, in the order 1, 2, ..., with no number missing.
\<close>

theorem parts_are_numbered_in_file_order:
  assumes "\<forall>t. open_rb e t path = Inr contents"
  shows "part_numbers (events_since tr (snd (upload_large_file_to_s3 e path b k tr))) =
           [1..<Suc (length (part_numbers (events_since tr (snd (upload_large_file_to_s3 e path b k tr)))))]
     \<and> prefix (part_bodies (events_since tr (snd (upload_large_file_to_s3 e path b k tr))))
           (chunks part_size contents)
     \<and> (\<forall>(u, ps)\<in>set (complete_calls (events_since tr (snd (upload_large_file_to_s3 e path b k tr)))).
           ps = part_tags (events_since tr (snd (upload_large_file_to_s3 e path b k tr)))
           \<and> map fst ps = [1..<Suc (length (chunks part_size contents))]
           \<and> part_bodies (events_since tr (snd (upload_large_file_to_s3 e path b k tr))) =
               chunks part_size contents)"
proof (intro conjI)
  let ?evs = "events_since tr (snd (upload_large_file_to_s3 e path b k tr))"
  show "part_numbers ?evs = [1..<Suc (length (part_numbers ?evs))]"
    by (rule upload_part_numbers)
  show "prefix (part_bodies ?evs) (chunks part_size contents)"
    using prefix_enumerate(2)[OF upload_part_calls[OF assms]] by (simp add: part_bodies_def)
  from upload_complete_calls[OF assms, of tr b k]
  show "\<forall>(u, ps)\<in>set (complete_calls ?evs). ps = part_tags ?evs
           \<and> map fst ps = [1..<Suc (length (chunks part_size contents))]
           \<and> part_bodies ?evs = chunks part_size contents"
  proof
    assume "complete_calls ?evs = []"
    then show ?thesis by simp
  next
    assume "\<exists>u. complete_calls ?evs = [(u, part_tags ?evs)]
          \<and> part_calls ?evs = enumerate 1 (chunks part_size contents)
          \<and> map fst (part_tags ?evs) = part_numbers ?evs"
    then obtain u where u: "complete_calls ?evs = [(u, part_tags ?evs)]"
      "part_calls ?evs = enumerate 1 (chunks part_size contents)"
      "map fst (part_tags ?evs) = part_numbers ?evs" by blast
    have "part_numbers ?evs = [1..<Suc (length (chunks part_size contents))]"
      unfolding part_numbers_def u(2) by (simp del: upt_Suc)
    moreover have "part_bodies ?evs = chunks part_size contents"
      unfolding part_bodies_def u(2) by simp
    ultimately show ?thesis using u by simp
  qed
qed

lemma example_two_parts:
  "events_since [] (snd (upload_large_file_to_s3
      (example_env [''a.sql''] (replicate 5242882 7) no_head (\<lambda>k. Inr ''id'') (\<lambda>n. Inr ''etag'') all_printed)
      ''/data/a.sql'' ''bucket'' ''db/2024-03-01/a.sql'' [])) =
   [Call (Getsize ''/data/a.sql'') Returned,
    Call (Create_multipart_upload ''bucket'' ''db/2024-03-01/a.sql'') (Returned_id ''id''),
    Call (Open_rb ''/data/a.sql'') Returned,
    Call (Read_file ''/data/a.sql'' 5242880) Returned,
    Call (Upload_part ''bucket'' ''db/2024-03-01/a.sql'' 1 ''id'' (replicate 5242880 7)) (Returned_id ''etag''),
    Call (Print (Msg_progress 5242880 2)) Returned,
    Call (Read_file ''/data/a.sql'' 5242880) Returned,
    Call (Upload_part ''bucket'' ''db/2024-03-01/a.sql'' 2 ''id'' (replicate 2 7)) (Returned_id ''etag''),
    Call (Print (Msg_progress 5242880 3)) Returned,
    Call (Read_file ''/data/a.sql'' 5242880) Returned,
    Call (Complete_multipart_upload ''bucket'' ''db/2024-03-01/a.sql'' ''id'' [(1, ''etag''), (2, ''etag'')])
      Returned,
    Log (Uploaded ''/data/a.sql'' ''bucket'' ''db/2024-03-01/a.sql''),
    Call (Print (Msg_uploaded ''/data/a.sql'' ''bucket'' ''db/2024-03-01/a.sql'')) Returned]"
  by (simp add: run_defs events_since_def)

theorem parts_are_numbered_in_file_order_witness:
  "part_numbers (events_since [] (snd (upload_large_file_to_s3
      (example_env [''a.sql''] (replicate 5242882 7) no_head (\<lambda>k. Inr ''id'') (\<lambda>n. Inr ''etag'') all_printed)
      ''/data/a.sql'' ''bucket'' ''db/2024-03-01/a.sql'' []))) = [1, 2]
   \<and> chunks part_size (replicate 5242882 (7 :: byte)) = [replicate 5242880 7, replicate 2 7]
   \<and> complete_calls (events_since [] (snd (upload_large_file_to_s3
      (example_env [''a.sql''] (replicate 5242882 7) no_head (\<lambda>k. Inr ''id'') (\<lambda>n. Inr ''etag'') all_printed)
      ''/data/a.sql'' ''bucket'' ''db/2024-03-01/a.sql'' []))) = [(''id'', [(1, ''etag''), (2, ''etag'')])]"
proof -
  let ?e = "example_env [''a.sql''] (replicate 5242882 7) no_head (\<lambda>k. Inr ''id'') (\<lambda>n. Inr ''etag'') all_printed"
  let ?evs = "events_since [] (snd (upload_large_file_to_s3 ?e ''/data/a.sql'' ''bucket'' ''db/2024-03-01/a.sql'' []))"
  have h: "\<forall>t. open_rb ?e t ''/data/a.sql'' = Inr (replicate 5242882 7)"
    by (simp add: example_env_def)
  have c: "complete_calls ?evs = [(''id'', [(1, ''etag''), (2, ''etag'')])]"
    unfolding example_two_parts by simp
  have b: "part_bodies ?evs = [replicate 5242880 7, replicate 2 7]"
    unfolding example_two_parts by (simp add: part_bodies_def)
  note parts_are_numbered_in_file_order[OF h, of "[]" "''bucket''" "''db/2024-03-01/a.sql''",
      THEN conjunct2, THEN conjunct2]
  then have "part_bodies ?evs = chunks part_size (replicate 5242882 7)"
    unfolding c by simp
  then have k: "chunks part_size (replicate 5242882 (7 :: byte)) = [replicate 5242880 7, replicate 2 7]"
    using b by simp
  have n: "part_numbers ?evs = [1, 2]"
    unfolding example_two_parts by (simp add: part_numbers_def)
  from n k c show ?thesis by (intro conjI)
qed

subsection \<open>C3: the parts cover the file\<close>

text \<open>
  C3. When a file that is not empty is uploaded up to the completion call, every part but
  the last holds exactly 5 * 1024 * 1024 bytes, the last part holds the remainder of the
  file size modulo that number when the remainder is not zero (and a full part otherwise),
  the bodies of the parts put end to end are the contents of the file, and their lengths
  add up to the file size.
\<close>

theorem parts_cover_the_file:
  assumes "\<forall>t. open_rb e t path = Inr contents"
    and "contents \<noteq> []"
    and "complete_calls (events_since tr (snd (upload_large_file_to_s3 e path b k tr))) \<noteq> []"
  shows "part_bodies (events_since tr (snd (upload_large_file_to_s3 e path b k tr))) \<noteq> []
     \<and> (\<forall>body\<in>set (butlast (part_bodies (events_since tr (snd (upload_large_file_to_s3 e path b k tr))))).
           length body = 5 * 1024 * 1024)
     \<and> (length contents mod (5 * 1024 * 1024) \<noteq> 0 \<longrightarrow>
           length (last (part_bodies (events_since tr (snd (upload_large_file_to_s3 e path b k tr))))) =
             length contents mod (5 * 1024 * 1024))
     \<and> (length contents mod (5 * 1024 * 1024) = 0 \<longrightarrow>
           length (last (part_bodies (events_since tr (snd (upload_large_file_to_s3 e path b k tr))))) =
             5 * 1024 * 1024)
     \<and> concat (part_bodies (events_since tr (snd (upload_large_file_to_s3 e path b k tr)))) = contents
     \<and> sum_list (map length (part_bodies (events_since tr (snd (upload_large_file_to_s3 e path b k tr))))) =
           length contents"
proof -
  let ?evs = "events_since tr (snd (upload_large_file_to_s3 e path b k tr))"
  have ps: "0 < part_size" "part_size = 5 * 1024 * 1024" by (simp_all add: part_size_def)
  from upload_complete_calls[OF assms(1), of tr b k] assms(3)
  have "part_calls ?evs = enumerate 1 (chunks part_size contents)" by auto
  then have bodies: "part_bodies ?evs = chunks part_size contents"
    by (simp add: part_bodies_def)
  have 1: "chunks part_size contents \<noteq> []"
    using assms(2) ps(1) by (simp add: chunks_eq_Nil)
  have 2: "\<forall>body\<in>set (butlast (chunks part_size contents)). length body = part_size"
    using butlast_chunks_full[OF ps(1)] by blast
  have 3: "length (last (chunks part_size contents)) =
      (if length contents mod part_size = 0 then part_size else length contents mod part_size)"
    by (rule last_chunk_length[OF ps(1) assms(2)])
  have 4: "concat (chunks part_size contents) = contents"
    by (rule concat_chunks[OF ps(1)])
  have 5: "sum_list (map length (chunks part_size contents)) = length contents"
    by (rule sum_length_chunks[OF ps(1)])
  from 1 2 3 4 5 show ?thesis unfolding bodies ps(2) by simp
qed

theorem parts_cover_the_file_witness:
  "replicate 5242882 (7 :: byte) \<noteq> []
   \<and> part_bodies (events_since [] (snd (upload_large_file_to_s3
      (example_env [''a.sql''] (replicate 5242882 7) no_head (\<lambda>k. Inr ''id'') (\<lambda>n. Inr ''etag'') all_printed)
      ''/data/a.sql'' ''bucket'' ''db/2024-03-01/a.sql'' []))) = [replicate 5242880 7, replicate 2 7]
   \<and> concat (part_bodies (events_since [] (snd (upload_large_file_to_s3
      (example_env [''a.sql''] (replicate 5242882 7) no_head (\<lambda>k. Inr ''id'') (\<lambda>n. Inr ''etag'') all_printed)
      ''/data/a.sql'' ''bucket'' ''db/2024-03-01/a.sql'' [])))) = replicate 5242882 7
   \<and> length (last (part_bodies (events_since [] (snd (upload_large_file_to_s3
      (example_env [''a.sql''] (replicate 5242882 7) no_head (\<lambda>k. Inr ''id'') (\<lambda>n. Inr ''etag'') all_printed)
      ''/data/a.sql'' ''bucket'' ''db/2024-03-01/a.sql'' []))))) = 2"
proof -
  let ?e = "example_env [''a.sql''] (replicate 5242882 7) no_head (\<lambda>k. Inr ''id'') (\<lambda>n. Inr ''etag'') all_printed"
  let ?evs = "events_since [] (snd (upload_large_file_to_s3 ?e ''/data/a.sql'' ''bucket'' ''db/2024-03-01/a.sql'' []))"
  have h: "\<forall>t. open_rb ?e t ''/data/a.sql'' = Inr (replicate 5242882 7)"
    by (simp add: example_env_def)
  have n: "replicate 5242882 (7 :: byte) \<noteq> []" by simp
  have c: "complete_calls ?evs \<noteq> []"
    unfolding example_two_parts by simp
  have b: "part_bodies ?evs = [replicate 5242880 7, replicate 2 7]"
    unfolding example_two_parts by (simp add: part_bodies_def)
  have m: "length (replicate 5242882 (7 :: byte)) mod (5 * 1024 * 1024) = 2"
    by simp
  note t = parts_cover_the_file[OF h n c]
  have 1: "concat (part_bodies ?evs) = replicate 5242882 7"
    using t [THEN conjunct2, THEN conjunct2, THEN conjunct2, THEN conjunct2, THEN conjunct1] .
  have 2: "length (last (part_bodies ?evs)) = 2"
    using t [THEN conjunct2, THEN conjunct2, THEN conjunct1] m by simp
  from n b 1 2 show ?thesis by (intro conjI)
qed

subsection \<open>The existence checks of a run\<close>



lemma checks_Head [simp]:
  "checks t (Call (Head_object b k) oc # evs) =
     (t, b, k, oc, evs) # checks (t @ [Call (Head_object b k) oc]) evs"
  by simp

lemma checked_checks: "checked evs = map (\<lambda>(t, b, k, oc, rest). k) (checks t evs)"
  by (induction evs arbitrary: t rule: checked.induct) simp_all


lemma key_is_rest: "key_is e p bucket (t, b, k, oc, rest) f = key_is e p bucket (t, b, k, oc, rest') f"
  by (simp add: key_is_def)



subsection \<open>Dates\<close>










lemma hyphen_not_digit: "digit_value (CHR ''-'') = None"
  by (simp add: digit_value_def)





subsection \<open>C4: the destination key\<close>



end
